theory Spec2Isabelle
  imports Complex_Main "HOL-Library.Multiset" "HOL-Library.Product_Lexorder"
begin

text \<open>
  The live-telemetry reconciliation engine of the railway tracker: the delta normalizer and
  the entity resolver of \<open>services/liveData.ts\<close>, the run merger, the staleness sweep and
  the cold-start replay of \<open>services/dataLoader.ts\<close>, and the batch application of the
  store. Each function of the source is a definition of the same name; the properties
  follow the definitions.
\<close>

section \<open>JavaScript values used by the reconciliation engine\<close>

text \<open>
  A JavaScript \<open>number\<close> is either \<open>NaN\<close>, one of the two infinities, or a finite
  value. A finite value is represented by the rational it denotes and arithmetic on finite
  values is exact: the engine only adds score weights (multiples of 0.25), subtracts
  millisecond timestamps and multiplies a seconds timestamp by 1000, and compares the
  results. The two zeros of IEEE arithmetic are one value here.
\<close>

datatype jsnum = NaN | NegInf | Fin rat | PosInf

fun isFinite :: "jsnum \<Rightarrow> bool" where
  "isFinite (Fin q) = True"
| "isFinite _ = False"

text \<open>\<open>Number.isFinite\<close> applied to a value of type \<open>number | null\<close>.\<close>

fun isFiniteOpt :: "jsnum option \<Rightarrow> bool" where
  "isFiniteOpt (Some n) = isFinite n"
| "isFiniteOpt None = False"

text \<open>Truthiness of a number: everything but zero and \<open>NaN\<close>.\<close>

fun num_truthy :: "jsnum \<Rightarrow> bool" where
  "num_truthy NaN = False"
| "num_truthy (Fin q) = (q \<noteq> 0)"
| "num_truthy _ = True"

fun opt_num_truthy :: "jsnum option \<Rightarrow> bool" where
  "opt_num_truthy None = False"
| "opt_num_truthy (Some n) = num_truthy n"

text \<open>Truthiness of an optional string: present and not empty.\<close>

fun str_truthy :: "string option \<Rightarrow> bool" where
  "str_truthy None = False"
| "str_truthy (Some s) = (s \<noteq> [])"

text \<open>The operator \<open>===\<close> on numbers: \<open>NaN\<close> equals nothing.\<close>

definition strict_eq :: "jsnum \<Rightarrow> jsnum \<Rightarrow> bool" where
  "strict_eq a b = (a \<noteq> NaN \<and> b \<noteq> NaN \<and> a = b)"

fun num_sub :: "jsnum \<Rightarrow> jsnum \<Rightarrow> jsnum" where
  "num_sub (Fin a) (Fin b) = Fin (a - b)"
| "num_sub NaN _ = NaN"
| "num_sub _ NaN = NaN"
| "num_sub PosInf PosInf = NaN"
| "num_sub NegInf NegInf = NaN"
| "num_sub PosInf _ = PosInf"
| "num_sub NegInf _ = NegInf"
| "num_sub (Fin a) PosInf = NegInf"
| "num_sub (Fin a) NegInf = PosInf"

fun num_mul :: "jsnum \<Rightarrow> jsnum \<Rightarrow> jsnum" where
  "num_mul (Fin a) (Fin b) = Fin (a * b)"
| "num_mul NaN _ = NaN"
| "num_mul _ NaN = NaN"
| "num_mul PosInf (Fin b) = (if b = 0 then NaN else if 0 < b then PosInf else NegInf)"
| "num_mul NegInf (Fin b) = (if b = 0 then NaN else if 0 < b then NegInf else PosInf)"
| "num_mul (Fin a) PosInf = (if a = 0 then NaN else if 0 < a then PosInf else NegInf)"
| "num_mul (Fin a) NegInf = (if a = 0 then NaN else if 0 < a then NegInf else PosInf)"
| "num_mul PosInf PosInf = PosInf"
| "num_mul NegInf NegInf = PosInf"
| "num_mul PosInf NegInf = NegInf"
| "num_mul NegInf PosInf = NegInf"

text \<open>The operator \<open><=\<close> on numbers: false as soon as one side is \<open>NaN\<close>.\<close>

fun num_le :: "jsnum \<Rightarrow> jsnum \<Rightarrow> bool" where
  "num_le NaN _ = False"
| "num_le _ NaN = False"
| "num_le NegInf _ = True"
| "num_le _ PosInf = True"
| "num_le (Fin a) (Fin b) = (a \<le> b)"
| "num_le _ _ = False"

text \<open>The operator \<open>>\<close> on numbers.\<close>

fun num_gt :: "jsnum \<Rightarrow> jsnum \<Rightarrow> bool" where
  "num_gt NaN _ = False"
| "num_gt _ NaN = False"
| "num_gt PosInf PosInf = False"
| "num_gt PosInf _ = True"
| "num_gt NegInf _ = False"
| "num_gt (Fin a) NegInf = True"
| "num_gt (Fin a) (Fin b) = (b < a)"
| "num_gt (Fin a) PosInf = False"

text \<open>
  \<open>Array.prototype.sort\<close> with a comparison function is stable. Where the comparison
  function is a consistent order the language fixes the result; where it is not (a \<open>NaN\<close>
  timestamp compares as equal to everything) the language leaves the order to the engine.
  The model follows the sort of the V8 engine (Node.js, Chrome) on arrays shorter than 64
  elements: it takes the run at the head of the array, ascending or strictly descending
  (then reversed), and inserts every remaining element into it by binary search. The
  engine sorts longer arrays by merging such runs, with the same result whenever the
  comparison function is a consistent order.
\<close>

text \<open>A comparison result counts as negative when it is below zero; \<open>NaN\<close> counts as 0.\<close>

definition orderNegative :: "jsnum \<Rightarrow> bool" where
  "orderNegative order = num_gt (Fin 0) order"

text \<open>
  The loop of \<open>CountAndMakeRun\<close>: the run goes on while the comparison of the current with
  the previous element stays on the side of the first comparison.
\<close>

fun runTail :: "bool \<Rightarrow> ('a \<Rightarrow> 'a \<Rightarrow> jsnum) \<Rightarrow> 'a \<Rightarrow> 'a list \<Rightarrow> 'a list \<times> 'a list" where
  "runTail isDescending cmp previousElement [] = ([], [])"
| "runTail isDescending cmp previousElement (currentElement # rest) =
     (if orderNegative (cmp currentElement previousElement) = isDescending
      then (case runTail isDescending cmp currentElement rest of
              (run, remaining) \<Rightarrow> (currentElement # run, remaining))
      else ([], currentElement # rest))"

text \<open>The run at the head of the array, made ascending, and the remaining elements.\<close>

definition countAndMakeRun :: "('a \<Rightarrow> 'a \<Rightarrow> jsnum) \<Rightarrow> 'a list \<Rightarrow> 'a list \<times> 'a list" where
  "countAndMakeRun cmp xs =
     (case xs of
        elementHigh # elementLow # rest \<Rightarrow>
          let isDescending = orderNegative (cmp elementLow elementHigh)
          in (case runTail isDescending cmp elementLow rest of
                (run, remaining) \<Rightarrow>
                  ((if isDescending then rev (elementHigh # elementLow # run)
                    else elementHigh # elementLow # run),
                   remaining))
      | _ \<Rightarrow> (xs, []))"

text \<open>
  The search loop of \<open>BinaryInsertionSort\<close>: the insertion point of the pivot in the
  sorted part \<open>ws\<close>, between \<open>left\<close> and \<open>right\<close>. The search starts with the
  length of \<open>ws\<close> as \<open>right\<close> and reads below \<open>right\<close> only, so every read is in range.
\<close>

function binarySearch :: "('a \<Rightarrow> 'a \<Rightarrow> jsnum) \<Rightarrow> 'a \<Rightarrow> 'a list \<Rightarrow> nat \<Rightarrow> nat \<Rightarrow> nat" where
  "binarySearch cmp pivot ws left right =
     (if left < right
      then (if orderNegative (cmp pivot (ws ! (left + (right - left) div 2)))
            then binarySearch cmp pivot ws left (left + (right - left) div 2)
            else binarySearch cmp pivot ws (left + (right - left) div 2 + 1) right)
      else left)"
  by pat_completeness auto
termination
  by (relation "measure (\<lambda>(cmp, pivot, ws, left, right). right - left)") auto

declare binarySearch.simps [simp del]

text \<open>One step of \<open>BinaryInsertionSort\<close>: the pivot moves to its insertion point.\<close>

definition binaryInsert :: "('a \<Rightarrow> 'a \<Rightarrow> jsnum) \<Rightarrow> 'a list \<Rightarrow> 'a \<Rightarrow> 'a list" where
  "binaryInsert cmp ws pivot =
     (let left = binarySearch cmp pivot ws 0 (length ws)
      in take left ws @ pivot # drop left ws)"

definition sortBy :: "('a \<Rightarrow> 'a \<Rightarrow> jsnum) \<Rightarrow> 'a list \<Rightarrow> 'a list" where
  "sortBy cmp xs =
     (if length xs < 2 then xs
      else (case countAndMakeRun cmp xs of
              (run, remaining) \<Rightarrow> foldl (binaryInsert cmp) run remaining))"

text \<open>\<open>String.prototype.toLowerCase\<close> on ASCII text.\<close>

definition lowerChar :: "char \<Rightarrow> char" where
  "lowerChar c =
     (let n = (of_char c :: nat) in if 65 \<le> n \<and> n \<le> 90 then char_of (n + 32) else c)"

definition toLowerCase :: "string \<Rightarrow> string" where
  "toLowerCase s = map lowerChar s"

text \<open>\<open>String.prototype.startsWith\<close>, \<open>includes\<close> and \<open>endsWith\<close>.\<close>

fun startsWith :: "string \<Rightarrow> string \<Rightarrow> bool" where
  "startsWith s [] = True"
| "startsWith [] (c # cs) = False"
| "startsWith (d # ds) (c # cs) = (d = c \<and> startsWith ds cs)"

fun includes_str :: "string \<Rightarrow> string \<Rightarrow> bool" where
  "includes_str [] n = (n = [])"
| "includes_str (c # cs) n = (startsWith (c # cs) n \<or> includes_str cs n)"

definition endsWith :: "string \<Rightarrow> string \<Rightarrow> bool" where
  "endsWith s n = startsWith (rev s) (rev n)"

section \<open>Data model (types.ts)\<close>

text \<open>
  The records hold the fields that the engine reads or writes. The remaining fields of the
  TypeScript interfaces are display data that the engine copies unchanged.
\<close>

record TrainStop =
  StationId :: jsnum
  DayCount :: "jsnum option"
  OrderNumber :: jsnum
  StationName :: string

datatype Direction = Up | Down | Unknown

record LiveTrainDelta =
  delta_id :: string
  trainKey :: string
  variantKey :: string
  locomitiveNo :: "string option"
  lat :: jsnum
  lon :: jsnum
  lastUpdated :: jsnum
  lateBy :: "jsnum option"
  nextStationId :: "jsnum option"
  nextStopName :: "string option"
  prevStationId :: "jsnum option"
  speed :: "jsnum option"
  trainNumber :: "jsnum option"
  dayNumber :: "jsnum option"
  isTrainStation :: bool
  isTrainStop :: bool
  isFlagged :: bool
  iconUrl :: "string option"
  statusCode :: "string option"
  direction :: Direction

record TrainWithRoute =
  TrainId :: jsnum
  TrainNumber :: jsnum
  TrainName :: string
  IsLive :: bool
  IsUp :: bool
  LocomotiveNumber :: "string option"
  AllocatedDate :: "string option"
  route :: "TrainStop list"
  upcomingStop :: "TrainStop option"
  previousStop :: "TrainStop option"
  livePosition :: "LiveTrainDelta option"
  liveRuns :: "LiveTrainDelta list option"
  selectedRunId :: "string option"

section \<open>Staleness sweep (dataLoader.ts)\<close>

definition STALE_LIVE_RUN_TTL_MS :: jsnum where
  "STALE_LIVE_RUN_TTL_MS = Fin (10 * 60 * 1000)"

definition findStopByStationId :: "TrainStop list \<Rightarrow> jsnum option \<Rightarrow> TrainStop option" where
  "findStopByStationId rt stationId =
     (case stationId of
        None \<Rightarrow> None
      | Some sid \<Rightarrow>
          if \<not> num_truthy sid then None
          else find (\<lambda>stop. strict_eq (StationId stop) sid) rt)"

definition sameStop :: "TrainStop option \<Rightarrow> TrainStop option \<Rightarrow> bool" where
  "sameStop a b =
     (case (a, b) of
        (None, None) \<Rightarrow> True
      | (Some x, Some y) \<Rightarrow>
          strict_eq (StationId x) (StationId y) \<and> strict_eq (OrderNumber x) (OrderNumber y)
      | _ \<Rightarrow> False)"

text \<open>\<open>train.route[0]\<close>: absent for an empty route.\<close>

definition firstStop :: "TrainStop list \<Rightarrow> TrainStop option" where
  "firstStop rt = (case rt of [] \<Rightarrow> None | s # _ \<Rightarrow> Some s)"

text \<open>\<open>!train.liveRuns?.length\<close>: the run list is absent or empty.\<close>

definition noRuns :: "LiveTrainDelta list option \<Rightarrow> bool" where
  "noRuns rs = (case rs of None \<Rightarrow> True | Some xs \<Rightarrow> xs = [])"

definition resetTrainLiveState :: "TrainWithRoute \<Rightarrow> TrainWithRoute" where
  "resetTrainLiveState train =
     (if livePosition train = None \<and> noRuns (liveRuns train)
         \<and> \<not> str_truthy (selectedRunId train) \<and> \<not> IsLive train
      then train
      else train\<lparr>IsLive := False, livePosition := None, liveRuns := None,
                 selectedRunId := None, upcomingStop := firstStop (route train),
                 previousStop := None\<rparr>)"

definition isRunFresh :: "LiveTrainDelta \<Rightarrow> jsnum \<Rightarrow> bool" where
  "isRunFresh run now = num_le (num_sub now (lastUpdated run)) STALE_LIVE_RUN_TTL_MS"

text \<open>The run picked by \<open>freshRuns.find(...) ?? freshRuns[0]\<close> on a non-empty list.\<close>

definition pickRun :: "LiveTrainDelta list \<Rightarrow> string option \<Rightarrow> LiveTrainDelta \<Rightarrow> LiveTrainDelta" where
  "pickRun rs wanted dflt =
     (case find (\<lambda>run. Some (delta_id run) = wanted) rs of
        Some r \<Rightarrow> r
      | None \<Rightarrow> (case rs of r # _ \<Rightarrow> r | [] \<Rightarrow> dflt))"

definition routeStop :: "TrainStop list \<Rightarrow> jsnum option \<Rightarrow> TrainStop option" where
  "routeStop rt stationId =
     (if opt_num_truthy stationId
      then find (\<lambda>s. strict_eq (StationId s) (the stationId)) rt
      else None)"

definition sanitizeTrainLiveState :: "TrainWithRoute \<Rightarrow> jsnum \<Rightarrow> TrainWithRoute" where
  "sanitizeTrainLiveState train now =
     (case liveRuns train of
        None \<Rightarrow> resetTrainLiveState train
      | Some runs \<Rightarrow>
          if runs = [] then resetTrainLiveState train
          else
            (case filter (\<lambda>run. isRunFresh run now) runs of
               [] \<Rightarrow> resetTrainLiveState train
             | f # fs \<Rightarrow>
                 let freshRuns = f # fs;
                     selectedRun = pickRun freshRuns (selectedRunId train) f;
                     upcoming = routeStop (route train) (nextStationId selectedRun);
                     previous = routeStop (route train) (prevStationId selectedRun);
                     requiresUpdate =
                       (length freshRuns \<noteq> length runs
                        \<or> selectedRunId train \<noteq> Some (delta_id selectedRun)
                        \<or> \<not> sameStop (upcomingStop train) upcoming
                        \<or> \<not> sameStop (previousStop train) previous
                        \<or> \<not> IsLive train)
                 in if \<not> requiresUpdate then train
                    else train\<lparr>IsLive := True, liveRuns := Some freshRuns,
                               selectedRunId := Some (delta_id selectedRun),
                               livePosition := Some selectedRun,
                               upcomingStop := upcoming, previousStop := previous\<rparr>))"

text \<open>
  \<open>stripStaleLiveData\<close> returns the input array itself when no train changed and the
  mapped array otherwise; both hold the same trains.
\<close>

definition stripStaleLiveData :: "TrainWithRoute list \<Rightarrow> jsnum \<Rightarrow> TrainWithRoute list" where
  "stripStaleLiveData trains now = map (\<lambda>train. sanitizeTrainLiveState train now) trains"

section \<open>Delta normalizer (liveData.ts)\<close>

record SocketTrainPayload =
  p_locomitiveNo :: "string option"
  p_lat :: "string option"
  p_lon :: "string option"
  p_last_updated :: "string option"
  p_late_by :: "string option"
  p_next_station :: "string option"
  p_next_stop :: "string option"
  p_prev_station :: "string option"
  p_sp :: "string option"
  p_isTrainStation :: "string option"
  p_isTrainStop :: "string option"
  p_isFlagged :: "string option"
  p_icon :: "string option"
  p_st :: "string option"
  p__last_updated :: "jsnum option"

definition parseBoolean :: "string option \<Rightarrow> bool" where
  "parseBoolean v = (case v of None \<Rightarrow> False | Some s \<Rightarrow> toLowerCase s = ''true'')"

definition parseDirection :: "string option \<Rightarrow> Direction" where
  "parseDirection icon =
     (if \<not> str_truthy icon then Unknown
      else if includes_str (toLowerCase (the icon)) ''up'' then Up
      else if includes_str (toLowerCase (the icon)) ''down'' then Down
      else Unknown)"

text \<open>
  The conversion \<open>Number(s)\<close> of a string is a built-in of the language; the functions
  that call it take it as the argument \<open>toNumber\<close>. \<open>Number(undefined)\<close> is \<open>NaN\<close>.
\<close>

definition NumberOpt :: "(string \<Rightarrow> jsnum) \<Rightarrow> string option \<Rightarrow> jsnum" where
  "NumberOpt toNumber v = (case v of None \<Rightarrow> NaN | Some s \<Rightarrow> toNumber s)"

definition finiteOrNull :: "jsnum \<Rightarrow> jsnum option" where
  "finiteOrNull parsed = (if isFinite parsed then Some parsed else None)"

definition extractTrainNumberFromKey :: "(string \<Rightarrow> jsnum) \<Rightarrow> string \<Rightarrow> jsnum option" where
  "extractTrainNumberFromKey toNumber v =
     (if v = [] then None
      else if endsWith v ''9900'' then finiteOrNull (toNumber (take (length v - 4) v))
      else if endsWith v ''099900'' then finiteOrNull (toNumber (take (length v - 6) v))
      else finiteOrNull (toNumber v))"

text \<open>\<open>payload.f ? Number(payload.f) : null\<close>\<close>

definition numberOrNull :: "(string \<Rightarrow> jsnum) \<Rightarrow> string option \<Rightarrow> jsnum option" where
  "numberOrNull toNumber v = (if str_truthy v then Some (toNumber (the v)) else None)"

text \<open>\<open>Number.isFinite(x) ? x : null\<close> on a value of type \<open>number | null\<close>.\<close>

definition keepFinite :: "jsnum option \<Rightarrow> jsnum option" where
  "keepFinite x = (if isFiniteOpt x then x else None)"

text \<open>The argument \<open>now\<close> is the value of \<open>Date.now()\<close>.\<close>

definition parseSocketPayload ::
  "(string \<Rightarrow> jsnum) \<Rightarrow> jsnum \<Rightarrow> string \<Rightarrow> string \<Rightarrow> SocketTrainPayload
     \<Rightarrow> LiveTrainDelta option" where
  "parseSocketPayload toNumber now tKey vKey payload =
     (let lat_v = NumberOpt toNumber (p_lat payload);
          lon_v = NumberOpt toNumber (p_lon payload)
      in if \<not> isFinite lat_v \<or> \<not> isFinite lon_v then None
         else
           let lastUpdated_v =
                 (case p__last_updated payload of
                    Some n \<Rightarrow> n
                  | None \<Rightarrow>
                      if str_truthy (p_last_updated payload)
                      then num_mul (toNumber (the (p_last_updated payload))) (Fin 1000)
                      else now);
               speed_v = numberOrNull toNumber (p_sp payload);
               trainNumber_v =
                 (case extractTrainNumberFromKey toNumber tKey of
                    Some n \<Rightarrow> Some n
                  | None \<Rightarrow> extractTrainNumberFromKey toNumber vKey)
           in Some \<lparr>delta_id = tKey @ '':'' @ vKey,
                    trainKey = tKey,
                    variantKey = vKey,
                    locomitiveNo = p_locomitiveNo payload,
                    lat = lat_v,
                    lon = lon_v,
                    lastUpdated = lastUpdated_v,
                    lateBy = numberOrNull toNumber (p_late_by payload),
                    nextStationId = numberOrNull toNumber (p_next_station payload),
                    nextStopName = p_next_stop payload,
                    prevStationId = numberOrNull toNumber (p_prev_station payload),
                    speed = keepFinite speed_v,
                    trainNumber = keepFinite trainNumber_v,
                    dayNumber = None,
                    isTrainStation = parseBoolean (p_isTrainStation payload),
                    isTrainStop = parseBoolean (p_isTrainStop payload),
                    isFlagged = parseBoolean (p_isFlagged payload),
                    iconUrl = p_icon payload,
                    statusCode = p_st payload,
                    direction = parseDirection (p_icon payload)\<rparr>)"

section \<open>Entity resolver (liveData.ts)\<close>

record CandidateScore =
  cand_train :: TrainWithRoute
  score :: rat
  reasons :: "string list"

text \<open>\<open>Array.prototype.findIndex\<close>: the position of the first match, or -1.\<close>

fun findIndex :: "('a \<Rightarrow> bool) \<Rightarrow> 'a list \<Rightarrow> int" where
  "findIndex P [] = -1"
| "findIndex P (x # xs) =
     (if P x then 0 else (let i = findIndex P xs in if i = -1 then -1 else i + 1))"

definition stationIdIs :: "jsnum option \<Rightarrow> TrainStop \<Rightarrow> bool" where
  "stationIdIs sid stop = (case sid of None \<Rightarrow> False | Some n \<Rightarrow> strict_eq (StationId stop) n)"

definition directionFlag :: "LiveTrainDelta \<Rightarrow> bool option" where
  "directionFlag delta = (if direction delta = Unknown then None else Some (direction delta = Up))"

text \<open>One piece of evidence: \<open>if (found) { score += weight; reasons.push(tag); }\<close>.\<close>

definition addEvidence :: "bool \<Rightarrow> rat \<Rightarrow> string \<Rightarrow> CandidateScore \<Rightarrow> CandidateScore" where
  "addEvidence found weight tag c =
     (if found then c\<lparr>score := score c + weight, reasons := reasons c @ [tag]\<rparr> else c)"

text \<open>
  The callback of \<open>trains.map\<close> in \<open>findMatchingTrainId\<close>: the score starts at 0 and
  each piece of evidence adds its weight and its reason tag, in the order of the source.
\<close>

definition scoreCandidate :: "LiveTrainDelta \<Rightarrow> TrainWithRoute \<Rightarrow> CandidateScore" where
  "scoreCandidate delta train =
     (let c0 = \<lparr>cand_train = train, score = 0, reasons = []\<rparr>;
          c1 = addEvidence (str_truthy (locomitiveNo delta) \<and> str_truthy (LocomotiveNumber train)
                            \<and> locomitiveNo delta = LocomotiveNumber train)
                 10 ''locomotive'' c0;
          nextStop = (if opt_num_truthy (nextStationId delta)
                      then findStopByStationId (route train) (nextStationId delta) else None);
          c2 = addEvidence (nextStop \<noteq> None) 4 ''nextStation'' c1;
          prevStop = (if opt_num_truthy (prevStationId delta)
                      then findStopByStationId (route train) (prevStationId delta) else None);
          c3 = addEvidence (prevStop \<noteq> None) 4 ''prevStation'' c2;
          c4 = (if nextStop \<noteq> None \<and> prevStop \<noteq> None
                then
                  let nextIndex = findIndex (stationIdIs (nextStationId delta)) (route train);
                      prevIndex = findIndex (stationIdIs (prevStationId delta)) (route train)
                  in addEvidence (prevIndex \<noteq> -1 \<and> nextIndex \<noteq> -1 \<and> prevIndex < nextIndex)
                       1 ''stationOrder'' c3
                else c3);
          c5 = (case directionFlag delta of
                  None \<Rightarrow> c4
                | Some flag \<Rightarrow> addEvidence (IsUp train = flag) 1 ''direction'' c4);
          c6 = (if str_truthy (nextStopName delta)
                then
                  let nameLower = toLowerCase (the (nextStopName delta));
                      matchesStopName =
                        list_ex (\<lambda>stop. toLowerCase (StationName stop) = nameLower) (route train)
                  in if matchesStopName then addEvidence True (1 / 2) ''nextStopName'' c5
                     else addEvidence (includes_str (toLowerCase (TrainName train)) nameLower)
                            (1 / 4) ''trainNameHint'' c5
                else c5)
      in c6)"

definition scoredCandidates :: "TrainWithRoute list \<Rightarrow> LiveTrainDelta \<Rightarrow> CandidateScore list" where
  "scoredCandidates trains delta =
     filter (\<lambda>candidate. 0 < score candidate) (map (scoreCandidate delta) trains)"

text \<open>The train-number short-circuit at the head of \<open>findMatchingTrainId\<close>.\<close>

definition numberMatch :: "TrainWithRoute list \<Rightarrow> LiveTrainDelta \<Rightarrow> TrainWithRoute option" where
  "numberMatch trains delta =
     (case trainNumber delta of
        None \<Rightarrow> None
      | Some n \<Rightarrow>
          if isFinite n then find (\<lambda>train. strict_eq (TrainNumber train) n) trains else None)"

text \<open>The part of \<open>findMatchingTrainId\<close> after the short-circuit.\<close>

definition bestByScore :: "CandidateScore list \<Rightarrow> jsnum option" where
  "bestByScore cands =
     (if cands = [] then None
      else
        (case sortBy (\<lambda>a b. Fin (score b - score a)) cands of
           [] \<Rightarrow> None
         | best # rest \<Rightarrow>
             if score best \<le> 0 then None
             else if 1 < length (filter (\<lambda>candidate. score candidate = score best) (best # rest))
             then None
             else
               (case rest of
                  [] \<Rightarrow> Some (TrainId (cand_train best))
                | second # _ \<Rightarrow>
                    if score best \<le> score second then None
                    else Some (TrainId (cand_train best)))))"

definition findMatchingTrainId :: "TrainWithRoute list \<Rightarrow> LiveTrainDelta \<Rightarrow> jsnum option" where
  "findMatchingTrainId trains delta =
     (case numberMatch trains delta of
        Some train \<Rightarrow> Some (TrainId train)
      | None \<Rightarrow> bestByScore (scoredCandidates trains delta))"

section \<open>Run merger (liveData.ts)\<close>

definition computeStopsForRun ::
  "TrainWithRoute \<Rightarrow> LiveTrainDelta option \<Rightarrow> TrainStop option \<times> TrainStop option" where
  "computeStopsForRun train run =
     (case run of
        None \<Rightarrow> (None, None)
      | Some r \<Rightarrow>
          ((if opt_num_truthy (nextStationId r)
            then findStopByStationId (route train) (nextStationId r) else None),
           (if opt_num_truthy (prevStationId r)
            then findStopByStationId (route train) (prevStationId r) else None)))"

definition deriveDayNumber :: "TrainWithRoute \<Rightarrow> LiveTrainDelta \<Rightarrow> jsnum option" where
  "deriveDayNumber train delta =
     (case (if opt_num_truthy (nextStationId delta)
            then findStopByStationId (route train) (nextStationId delta) else None) of
        Some upcoming \<Rightarrow> DayCount upcoming
      | None \<Rightarrow>
          (case (if opt_num_truthy (prevStationId delta)
                 then findStopByStationId (route train) (prevStationId delta) else None) of
             Some previous \<Rightarrow> DayCount previous
           | None \<Rightarrow> dayNumber delta))"

text \<open>The comparison function \<open>(a, b) => b.lastUpdated - a.lastUpdated\<close>.\<close>

definition byLastUpdatedDesc :: "LiveTrainDelta \<Rightarrow> LiveTrainDelta \<Rightarrow> jsnum" where
  "byLastUpdatedDesc a b = num_sub (lastUpdated b) (lastUpdated a)"

definition updateTrainWithDelta ::
  "TrainWithRoute \<Rightarrow> LiveTrainDelta \<Rightarrow> string option \<Rightarrow> TrainWithRoute" where
  "updateTrainWithDelta train delta preferredRunId =
     (let normalizedDelta = delta\<lparr>dayNumber := deriveDayNumber train delta\<rparr>;
          existingRuns = (case liveRuns train of None \<Rightarrow> [] | Some rs \<Rightarrow> rs);
          filteredRuns = filter (\<lambda>run. delta_id run \<noteq> delta_id normalizedDelta) existingRuns;
          mergedRuns = sortBy byLastUpdatedDesc (filteredRuns @ [normalizedDelta]);
          desiredRunId =
            (case preferredRunId of
               Some p \<Rightarrow> p
             | None \<Rightarrow>
                 (case selectedRunId train of
                    Some s \<Rightarrow> s
                  | None \<Rightarrow> delta_id normalizedDelta));
          selectedRun = pickRun mergedRuns (Some desiredRunId) normalizedDelta;
          stops = computeStopsForRun train (Some selectedRun)
      in train\<lparr>IsLive := True, liveRuns := Some mergedRuns,
                selectedRunId := Some (delta_id selectedRun),
                livePosition := Some selectedRun,
                upcomingStop := fst stops, previousStop := snd stops\<rparr>)"

text \<open>The run set of a train view: \<open>train.liveRuns ?? []\<close>.\<close>

definition runsOf :: "TrainWithRoute \<Rightarrow> LiveTrainDelta list" where
  "runsOf train = (case liveRuns train of None \<Rightarrow> [] | Some rs \<Rightarrow> rs)"

section \<open>Cold-start replay (dataLoader.ts)\<close>

text \<open>
  \<open>getTrainUniqueKey\<close> formats the train id with \<open>String\<close> and the allocation date with
  \<open>new Date(d).toISOString().split('T')[0]\<close>; \<open>toISOString\<close> throws a \<open>RangeError\<close> on
  an invalid date. Both built-ins are arguments: \<open>toStr\<close> is \<open>String\<close> on numbers and
  \<open>isoDay\<close> is the date conversion, \<open>None\<close> where it throws.
\<close>

datatype error = RangeError

definition getTrainUniqueKey ::
  "(jsnum \<Rightarrow> string) \<Rightarrow> (string \<Rightarrow> string option) \<Rightarrow> TrainWithRoute \<Rightarrow> error + string" where
  "getTrainUniqueKey toStr isoDay train =
     (if str_truthy (AllocatedDate train)
      then (case isoDay (the (AllocatedDate train)) of
              None \<Rightarrow> Inl RangeError
            | Some day \<Rightarrow> Inr (toStr (TrainId train) @ ''-'' @ day))
      else Inr (toStr (TrainId train) @ ''-no-date''))"

record ReplayState =
  rp_trains :: "TrainWithRoute list"
  rp_trainKeyToId :: "string \<rightharpoonup> jsnum"
  rp_selectedRunIds :: "string \<rightharpoonup> string"

text \<open>
  The \<open>updatedTrains.map\<close> of the replay loop: a train with the target id is merged with
  the delta, under the run pinned for its unique key.
\<close>

fun replayUpdate ::
  "(TrainWithRoute \<Rightarrow> error + string) \<Rightarrow> (string \<rightharpoonup> string) \<Rightarrow> jsnum \<Rightarrow> LiveTrainDelta
     \<Rightarrow> TrainWithRoute list \<Rightarrow> error + TrainWithRoute list" where
  "replayUpdate keyOf pins target delta [] = Inr []"
| "replayUpdate keyOf pins target delta (t # ts) =
     (if strict_eq (TrainId t) target
      then (case keyOf t of
              Inl e \<Rightarrow> Inl e
            | Inr k \<Rightarrow>
                (case replayUpdate keyOf pins target delta ts of
                   Inl e \<Rightarrow> Inl e
                 | Inr ts' \<Rightarrow> Inr (updateTrainWithDelta t delta (pins k) # ts')))
      else (case replayUpdate keyOf pins target delta ts of
              Inl e \<Rightarrow> Inl e
            | Inr ts' \<Rightarrow> Inr (t # ts')))"

text \<open>The body of \<open>deltas.forEach\<close> in \<open>applyStoredLiveDeltas\<close>.\<close>

definition replayDelta ::
  "(TrainWithRoute \<Rightarrow> error + string) \<Rightarrow> ReplayState \<Rightarrow> LiveTrainDelta \<Rightarrow> error + ReplayState" where
  "replayDelta keyOf st delta =
     (let targetTrainId =
            (case rp_trainKeyToId st (trainKey delta) of
               Some v \<Rightarrow> Some v
             | None \<Rightarrow> findMatchingTrainId (rp_trains st) delta)
      in if opt_num_truthy targetTrainId
         then
           let target = the targetTrainId;
               st1 = st\<lparr>rp_trainKeyToId := (rp_trainKeyToId st)(trainKey delta \<mapsto> target)\<rparr>
           in (case replayUpdate keyOf (rp_selectedRunIds st) target delta (rp_trains st) of
                 Inl e \<Rightarrow> Inl e
               | Inr updated \<Rightarrow>
                   let st2 = st1\<lparr>rp_trains := updated\<rparr>
                   in (case find (\<lambda>t. strict_eq (TrainId t) target) updated of
                         None \<Rightarrow> Inr st2
                       | Some updatedTrain \<Rightarrow>
                           if str_truthy (selectedRunId updatedTrain)
                           then (case keyOf updatedTrain of
                                   Inl e \<Rightarrow> Inl e
                                 | Inr k \<Rightarrow>
                                     Inr (st2\<lparr>rp_selectedRunIds :=
                                                (rp_selectedRunIds st)(k \<mapsto> the (selectedRunId updatedTrain))\<rparr>))
                           else Inr st2))
         else Inr st)"

fun replayAll ::
  "(TrainWithRoute \<Rightarrow> error + string) \<Rightarrow> ReplayState \<Rightarrow> LiveTrainDelta list \<Rightarrow> error + ReplayState" where
  "replayAll keyOf st [] = Inr st"
| "replayAll keyOf st (delta # deltas) =
     (case replayDelta keyOf st delta of
        Inl e \<Rightarrow> Inl e
      | Inr st' \<Rightarrow> replayAll keyOf st' deltas)"

text \<open>
  \<open>deltas\<close> is the content of the persisted delta table in ascending \<open>lastUpdated\<close>
  order and \<open>now\<close> the value of \<open>Date.now()\<close> at the final sweep.
\<close>

definition applyStoredLiveDeltas ::
  "(jsnum \<Rightarrow> string) \<Rightarrow> (string \<Rightarrow> string option) \<Rightarrow> jsnum \<Rightarrow> TrainWithRoute list
     \<Rightarrow> LiveTrainDelta list \<Rightarrow> error + TrainWithRoute list" where
  "applyStoredLiveDeltas toStr isoDay now staticTrains deltas =
     (if deltas = [] then Inr staticTrains
      else
        (case replayAll (getTrainUniqueKey toStr isoDay)
                \<lparr>rp_trains = staticTrains, rp_trainKeyToId = Map.empty,
                 rp_selectedRunIds = Map.empty\<rparr> deltas of
           Inl e \<Rightarrow> Inl e
         | Inr st \<Rightarrow> Inr (stripStaleLiveData (rp_trains st) now)))"

section \<open>Batch application in the store (main.tsx)\<close>

record StoreSlice =
  st_trains :: "TrainWithRoute list"
  st_liveDeltas :: "string \<rightharpoonup> LiveTrainDelta"
  st_trainKeyToId :: "string \<rightharpoonup> jsnum"
  st_selectedRunIds :: "jsnum \<rightharpoonup> string"
  st_unresolvedDeltas :: "string \<rightharpoonup> LiveTrainDelta"

text \<open>
  The cache lookup \<open>get(delta.id) ?? get(delta.trainKey) ?? get(delta.variantKey) ??
  (delta.trainNumber != null ? get(String(delta.trainNumber)) : undefined)\<close>.
\<close>

definition mappedTrainId ::
  "(jsnum \<Rightarrow> string) \<Rightarrow> (string \<rightharpoonup> jsnum) \<Rightarrow> LiveTrainDelta \<Rightarrow> jsnum option" where
  "mappedTrainId toStr cache delta =
     (case cache (delta_id delta) of
        Some v \<Rightarrow> Some v
      | None \<Rightarrow>
          (case cache (trainKey delta) of
             Some v \<Rightarrow> Some v
           | None \<Rightarrow>
               (case cache (variantKey delta) of
                  Some v \<Rightarrow> Some v
                | None \<Rightarrow>
                    (case trainNumber delta of
                       None \<Rightarrow> None
                     | Some n \<Rightarrow> cache (toStr n)))))"

text \<open>The branch \<open>if (targetTrainId) { ... }\<close> of the loop body.\<close>

definition attributeDelta ::
  "(jsnum \<Rightarrow> string) \<Rightarrow> StoreSlice \<Rightarrow> LiveTrainDelta \<Rightarrow> jsnum \<Rightarrow> StoreSlice" where
  "attributeDelta toStr st delta targetTrainId =
     (let cache3 = (st_trainKeyToId st)
                     (delta_id delta \<mapsto> targetTrainId, trainKey delta \<mapsto> targetTrainId,
                      variantKey delta \<mapsto> targetTrainId);
          cache4 = (case trainNumber delta of
                      None \<Rightarrow> cache3
                    | Some n \<Rightarrow> cache3(toStr n \<mapsto> targetTrainId));
          updated = map (\<lambda>train. if strict_eq (TrainId train) targetTrainId
                                  then updateTrainWithDelta train delta
                                         (st_selectedRunIds st (TrainId train))
                                  else train) (st_trains st);
          pins = (case find (\<lambda>train. strict_eq (TrainId train) targetTrainId) updated of
                    None \<Rightarrow> st_selectedRunIds st
                  | Some updatedTrain \<Rightarrow>
                      if str_truthy (selectedRunId updatedTrain)
                      then (st_selectedRunIds st)(targetTrainId \<mapsto> the (selectedRunId updatedTrain))
                      else st_selectedRunIds st)
      in st\<lparr>st_trains := updated, st_trainKeyToId := cache4, st_selectedRunIds := pins,
             st_unresolvedDeltas := (st_unresolvedDeltas st)(delta_id delta := None)\<rparr>)"

text \<open>
  The body of \<open>deltas.forEach\<close> in \<open>processDeltas\<close>. The resolver is an argument, so
  that a property can speak about whether the body consults it; \<open>processDeltas\<close> passes
  \<open>findMatchingTrainId\<close>.
\<close>

definition processDelta ::
  "(TrainWithRoute list \<Rightarrow> LiveTrainDelta \<Rightarrow> jsnum option) \<Rightarrow> (jsnum \<Rightarrow> string)
     \<Rightarrow> StoreSlice \<Rightarrow> LiveTrainDelta \<Rightarrow> StoreSlice" where
  "processDelta resolver toStr st delta =
     (let st1 = st\<lparr>st_liveDeltas := (st_liveDeltas st)(trainKey delta \<mapsto> delta)\<rparr>;
          mapped = mappedTrainId toStr (st_trainKeyToId st) delta;
          targetTrainId = (if opt_num_truthy mapped then mapped else resolver (st_trains st) delta)
      in if opt_num_truthy targetTrainId
         then attributeDelta toStr st1 delta (the targetTrainId)
         else st1\<lparr>st_unresolvedDeltas := (st_unresolvedDeltas st)(delta_id delta \<mapsto> delta)\<rparr>)"

definition processDeltas :: "(jsnum \<Rightarrow> string) \<Rightarrow> StoreSlice \<Rightarrow> LiveTrainDelta list \<Rightarrow> StoreSlice" where
  "processDeltas toStr currentState deltas =
     (if deltas = [] then currentState
      else foldl (processDelta findMatchingTrainId toStr) currentState deltas)"

text \<open>The identity cache holds truthy train ids only: \<open>processDeltas\<close> is its only writer.\<close>

definition cacheTruthy :: "(string \<rightharpoonup> jsnum) \<Rightarrow> bool" where
  "cacheTruthy cache = (\<forall>v \<in> ran cache. num_truthy v)"

section \<open>The built-in conversions on the inputs of the examples\<close>

text \<open>
  \<open>StringToNumber\<close> follows the grammar of ECMAScript's numeric string literals on ASCII
  text: surrounding white space is dropped, the empty string is 0, a decimal literal may
  carry a sign, a fraction and an exponent, \<open>Infinity\<close> may carry a sign, and the prefixes
  \<open>0x\<close>, \<open>0o\<close> and \<open>0b\<close> introduce unsigned integers. Everything else is \<open>NaN\<close>.
  A magnitude that rounds to infinity or to zero in double precision is mapped there;
  other values keep their exact rational value.
\<close>

definition isWhiteSpace :: "char \<Rightarrow> bool" where
  "isWhiteSpace c = ((of_char c :: nat) \<in> {9, 10, 11, 12, 13, 32})"

definition trimWS :: "string \<Rightarrow> string" where
  "trimWS s = rev (dropWhile isWhiteSpace (rev (dropWhile isWhiteSpace s)))"

definition digitOf :: "char \<Rightarrow> nat option" where
  "digitOf c =
     (let n = (of_char c :: nat)
      in if 48 \<le> n \<and> n \<le> 57 then Some (n - 48)
         else if 97 \<le> n \<and> n \<le> 102 then Some (n - 87)
         else if 65 \<le> n \<and> n \<le> 70 then Some (n - 55)
         else None)"

definition isDigitIn :: "nat \<Rightarrow> char \<Rightarrow> bool" where
  "isDigitIn base c = (case digitOf c of None \<Rightarrow> False | Some d \<Rightarrow> d < base)"

definition digitsValue :: "nat \<Rightarrow> string \<Rightarrow> nat" where
  "digitsValue base s = foldl (\<lambda>acc c. acc * base + the (digitOf c)) 0 s"

definition digitsOpt :: "nat \<Rightarrow> string \<Rightarrow> nat option" where
  "digitsOpt base s =
     (if s \<noteq> [] \<and> list_all (isDigitIn base) s then Some (digitsValue base s) else None)"

definition signedInteger :: "string \<Rightarrow> int option" where
  "signedInteger s =
     (case s of
        [] \<Rightarrow> None
      | c # cs \<Rightarrow>
          if c = CHR ''+'' then map_option int (digitsOpt 10 cs)
          else if c = CHR ''-'' then map_option (\<lambda>n. - int n) (digitsOpt 10 cs)
          else map_option int (digitsOpt 10 s))"

definition unsignedDecimal :: "string \<Rightarrow> rat option" where
  "unsignedDecimal s =
     (let ip = takeWhile (isDigitIn 10) s;
          r1 = dropWhile (isDigitIn 10) s;
          hasDot = (r1 \<noteq> [] \<and> hd r1 = CHR ''.'');
          fp = (if hasDot then takeWhile (isDigitIn 10) (tl r1) else []);
          r2 = (if hasDot then dropWhile (isDigitIn 10) (tl r1) else r1);
          ex = (if r2 = [] then Some 0
                else if hd r2 = CHR ''e'' \<or> hd r2 = CHR ''E'' then signedInteger (tl r2)
                else None)
      in if ip = [] \<and> fp = [] then None
         else (case ex of
                 None \<Rightarrow> None
               | Some e \<Rightarrow>
                   Some (of_nat (digitsValue 10 (ip @ fp)) / 10 ^ length fp
                         * (if 0 \<le> e then 10 ^ nat e else 1 / 10 ^ nat (- e)))))"

definition nonDecimal :: "string \<Rightarrow> nat option" where
  "nonDecimal s =
     (case s of
        z # x # ds \<Rightarrow>
          if z \<noteq> CHR ''0'' then None
          else if x = CHR ''x'' \<or> x = CHR ''X'' then digitsOpt 16 ds
          else if x = CHR ''o'' \<or> x = CHR ''O'' then digitsOpt 8 ds
          else if x = CHR ''b'' \<or> x = CHR ''B'' then digitsOpt 2 ds
          else None
      | _ \<Rightarrow> None)"

definition toDoubleRange :: "rat \<Rightarrow> jsnum" where
  "toDoubleRange q =
     (if 2 ^ 1024 - 2 ^ 970 \<le> q then PosInf
      else if q \<le> - (2 ^ 1024 - 2 ^ 970) then NegInf
      else if \<bar>q\<bar> \<le> 1 / 2 ^ 1075 then Fin 0
      else Fin q)"

definition StringToNumber :: "string \<Rightarrow> jsnum" where
  "StringToNumber s =
     (let t = trimWS s
      in if t = [] then Fin 0
         else (case nonDecimal t of
                 Some n \<Rightarrow> toDoubleRange (of_nat n)
               | None \<Rightarrow>
                   let neg = (hd t = CHR ''-'');
                       u = (if hd t = CHR ''-'' \<or> hd t = CHR ''+'' then tl t else t)
                   in if u = ''Infinity'' then (if neg then NegInf else PosInf)
                      else (case unsignedDecimal u of
                              None \<Rightarrow> NaN
                            | Some q \<Rightarrow> toDoubleRange (if neg then - q else q))))"





section \<open>Notions used to state the properties\<close>

text \<open>
  The evidence tests of the resolver, each stated on its own: the locomotive identifiers
  are present, not empty and equal; a station id is present, not zero, and the id of a
  stop of the route; the position of a station is that of its first stop in the route;
  the direction hint is known and equals the direction flag; the next-stop name is not
  empty and equals a station name of the route, or occurs in the train name, in lower case.
\<close>

definition locomotiveMatch :: "LiveTrainDelta \<Rightarrow> TrainWithRoute \<Rightarrow> bool" where
  "locomotiveMatch delta train =
     (case locomitiveNo delta of
        None \<Rightarrow> False
      | Some l \<Rightarrow> l \<noteq> [] \<and> LocomotiveNumber train = Some l)"

definition stationInRoute :: "jsnum option \<Rightarrow> TrainStop list \<Rightarrow> bool" where
  "stationInRoute sid rt = (opt_num_truthy sid \<and> list_ex (stationIdIs sid) rt)"

definition routePosition :: "jsnum option \<Rightarrow> TrainStop list \<Rightarrow> nat" where
  "routePosition sid rt = length (takeWhile (\<lambda>stop. \<not> stationIdIs sid stop) rt)"

definition directionMatch :: "LiveTrainDelta \<Rightarrow> TrainWithRoute \<Rightarrow> bool" where
  "directionMatch delta train =
     (direction delta \<noteq> Unknown \<and> IsUp train = (direction delta = Up))"

definition stopNameMatch :: "LiveTrainDelta \<Rightarrow> TrainWithRoute \<Rightarrow> bool" where
  "stopNameMatch delta train =
     (case nextStopName delta of
        None \<Rightarrow> False
      | Some nm \<Rightarrow>
          nm \<noteq> [] \<and> list_ex (\<lambda>stop. toLowerCase (StationName stop) = toLowerCase nm) (route train))"

definition trainNameHint :: "LiveTrainDelta \<Rightarrow> TrainWithRoute \<Rightarrow> bool" where
  "trainNameHint delta train =
     (case nextStopName delta of
        None \<Rightarrow> False
      | Some nm \<Rightarrow> nm \<noteq> [] \<and> includes_str (toLowerCase (TrainName train)) (toLowerCase nm))"

text \<open>
  The score as the specification words it: +10 if the locomotive identifier of the delta
  exactly matches that of the train, +4 for each of the next and previous station ids found
  in the route, +1 if both are found and the previous station comes first, +1 if a known
  direction hint matches the direction flag, +0.5 if the next-stop name matches a station
  name of the route case-insensitively, else +0.25 if it is a substring of the train name.
\<close>

definition spec_score :: "LiveTrainDelta \<Rightarrow> TrainWithRoute \<Rightarrow> rat" where
  "spec_score delta train =
     (let nextFound = list_ex (stationIdIs (nextStationId delta)) (route train);
          prevFound = list_ex (stationIdIs (prevStationId delta)) (route train)
      in (if locomitiveNo delta \<noteq> None \<and> locomitiveNo delta = LocomotiveNumber train
          then 10 else 0)
       + (if nextFound then 4 else 0)
       + (if prevFound then 4 else 0)
       + (if nextFound \<and> prevFound
             \<and> routePosition (prevStationId delta) (route train)
                 < routePosition (nextStationId delta) (route train)
          then 1 else 0)
       + (if direction delta \<noteq> Unknown \<and> IsUp train = (direction delta = Up) then 1 else 0)
       + (case nextStopName delta of
            None \<Rightarrow> 0
          | Some nm \<Rightarrow>
              if list_ex (\<lambda>stop. toLowerCase (StationName stop) = toLowerCase nm) (route train)
              then 1 / 2
              else if includes_str (TrainName train) nm then 1 / 4 else 0))"



section \<open>Example data\<close>

definition ex_stop12 :: TrainStop where
  "ex_stop12 = \<lparr>StationId = Fin 12, DayCount = Some (Fin 1), OrderNumber = Fin 1,
                StationName = ''Multan''\<rparr>"

definition ex_stop17 :: TrainStop where
  "ex_stop17 = \<lparr>StationId = Fin 17, DayCount = Some (Fin 1), OrderNumber = Fin 2,
                StationName = ''Lahore''\<rparr>"

definition ex_stop0 :: TrainStop where
  "ex_stop0 = \<lparr>StationId = Fin 0, DayCount = None, OrderNumber = Fin 3,
               StationName = ''Depot''\<rparr>"

definition ex_train5 :: TrainWithRoute where
  "ex_train5 = \<lparr>TrainId = Fin 5, TrainNumber = Fin 123, TrainName = ''Khyber Mail'',
                IsLive = False, IsUp = True, LocomotiveNumber = Some ''LOCO-9'',
                AllocatedDate = None, route = [ex_stop12, ex_stop17],
                upcomingStop = Some ex_stop12, previousStop = None, livePosition = None,
                liveRuns = None, selectedRunId = None\<rparr>"

text \<open>A second train with the same train number and the same locomotive.\<close>

definition ex_train6 :: TrainWithRoute where
  "ex_train6 = ex_train5\<lparr>TrainId := Fin 6, TrainName := ''Awam Express''\<rparr>"

text \<open>A train with another number and locomotive.\<close>

definition ex_train7 :: TrainWithRoute where
  "ex_train7 = ex_train5\<lparr>TrainId := Fin 7, TrainNumber := Fin 777,
                          LocomotiveNumber := Some ''LOCO-7''\<rparr>"

text \<open>A train whose route holds a station with id 0.\<close>

definition ex_train0 :: TrainWithRoute where
  "ex_train0 = ex_train5\<lparr>route := [ex_stop0, ex_stop17]\<rparr>"

definition ex_delta :: LiveTrainDelta where
  "ex_delta = \<lparr>delta_id = ''123:9900'', trainKey = ''123'', variantKey = ''9900'',
               locomitiveNo = None, lat = Fin (301 / 10), lon = Fin (351 / 5),
               lastUpdated = Fin 1000000, lateBy = None, nextStationId = None,
               nextStopName = None, prevStationId = None, speed = Some (Fin 45),
               trainNumber = Some (Fin 123), dayNumber = None, isTrainStation = False,
               isTrainStop = False, isFlagged = False, iconUrl = None, statusCode = None,
               direction = Unknown\<rparr>"

text \<open>A delta without a train-number hint that reports locomotive LOCO-9 only.\<close>

definition ex_delta_loco :: LiveTrainDelta where
  "ex_delta_loco = ex_delta\<lparr>trainNumber := None, locomitiveNo := Some ''LOCO-9''\<rparr>"

text \<open>A delta without a train-number hint whose next station has id 0.\<close>

definition ex_delta_zero :: LiveTrainDelta where
  "ex_delta_zero = ex_delta\<lparr>trainNumber := None, nextStationId := Some (Fin 0)\<rparr>"

text \<open>A delta that carries every kind of evidence for \<open>ex_train5\<close>.\<close>

definition ex_delta_full :: LiveTrainDelta where
  "ex_delta_full = ex_delta\<lparr>trainNumber := None, locomitiveNo := Some ''LOCO-9'',
                            nextStationId := Some (Fin 17), prevStationId := Some (Fin 12),
                            nextStopName := Some ''LAHORE'', direction := Up\<rparr>"

text \<open>The sweep time of the examples and runs around the TTL boundary.\<close>

definition ex_now :: rat where
  "ex_now = 2000000"

definition ex_run_stale :: LiveTrainDelta where
  "ex_run_stale = ex_delta\<lparr>lastUpdated := Fin (ex_now - 10 * 60 * 1000 - 1)\<rparr>"

definition ex_run_fresh :: LiveTrainDelta where
  "ex_run_fresh = ex_delta\<lparr>delta_id := ''123:b'', variantKey := ''b'',
                           lastUpdated := Fin (ex_now - 10 * 60 * 1000 + 1)\<rparr>"

definition ex_train_two_runs :: TrainWithRoute where
  "ex_train_two_runs =
     ex_train5\<lparr>IsLive := True, liveRuns := Some [ex_run_fresh, ex_run_stale],
               selectedRunId := Some ''123:b'', livePosition := Some ex_run_fresh\<rparr>"

definition ex_train_last_run :: TrainWithRoute where
  "ex_train_last_run =
     ex_train5\<lparr>IsLive := True, liveRuns := Some [ex_run_stale],
               selectedRunId := Some ''123:9900'', livePosition := Some ex_run_stale,
               upcomingStop := Some ex_stop17, previousStop := Some ex_stop12\<rparr>"









text \<open>The payload of the specification's scenario, and two malformed variants.\<close>

definition ex_payload :: SocketTrainPayload where
  "ex_payload = \<lparr>p_locomitiveNo = None, p_lat = Some ''30.1'', p_lon = Some ''70.2'',
                 p_last_updated = None, p_late_by = None, p_next_station = Some ''17'',
                 p_next_stop = None, p_prev_station = None, p_sp = Some ''45'',
                 p_isTrainStation = None, p_isTrainStop = None, p_isFlagged = None,
                 p_icon = None, p_st = None, p__last_updated = None\<rparr>"

definition ex_payload_nolat :: SocketTrainPayload where
  "ex_payload_nolat = ex_payload\<lparr>p_lat := Some ''n/a''\<rparr>"

definition ex_payload_late :: SocketTrainPayload where
  "ex_payload_late = ex_payload\<lparr>p_late_by := Some ''abc''\<rparr>"



section \<open>Properties of the sort\<close>

lemma runTail_append: "runTail d cmp p cs = (r, rest) \<Longrightarrow> r @ rest = cs"
  by (induction cs arbitrary: p r rest) (auto split: if_splits prod.splits)

lemma mset_countAndMakeRun:
  "countAndMakeRun cmp xs = (run, remaining) \<Longrightarrow> mset run + mset remaining = mset xs"
  by (auto simp: countAndMakeRun_def Let_def split: list.splits prod.splits if_splits
        dest!: runTail_append)

lemma mset_binaryInsert: "mset (binaryInsert cmp ws pivot) = add_mset pivot (mset ws)"
proof -
  have "mset (take k ws) + mset (drop k ws) = mset ws" for k
    by (metis append_take_drop_id mset_append)
  then show ?thesis by (simp add: binaryInsert_def Let_def)
qed

lemma set_binaryInsert: "set (binaryInsert cmp ws pivot) = insert pivot (set ws)"
proof -
  have "set (take k ws) \<union> set (drop k ws) = set ws" for k
    by (metis append_take_drop_id set_append)
  then show ?thesis by (simp add: binaryInsert_def Let_def)
qed

lemma mset_foldl_binaryInsert:
  "mset (foldl (binaryInsert cmp) run remaining) = mset run + mset remaining"
  by (induction remaining arbitrary: run) (auto simp: mset_binaryInsert)

lemma mset_sortBy: "mset (sortBy cmp xs) = mset xs"
  by (auto simp: sortBy_def mset_foldl_binaryInsert mset_countAndMakeRun split: prod.splits)

lemma set_sortBy: "set (sortBy cmp xs) = set xs"
  using mset_sortBy[of cmp xs] by (metis set_mset_mset)

lemma length_filter_sortBy: "length (filter P (sortBy cmp xs)) = length (filter P xs)"
  using mset_sortBy[of cmp xs] by (metis mset_filter size_mset)


text \<open>
  With a comparison function that orders the elements by a key, the sort is the stable
  sort by that key.
\<close>

lemma binarySearch_bounds:
  assumes keyed: "\<And>x y. x \<in> S \<Longrightarrow> y \<in> S \<Longrightarrow> orderNegative (cmp x y) = ((key x :: 'k::linorder) < key y)"
    and ws: "set ws \<subseteq> S" and p: "pivot \<in> S"
    and srt: "sorted_wrt (\<lambda>a b. key a \<le> key b) ws"
  shows "left \<le> right \<Longrightarrow> right \<le> length ws
     \<Longrightarrow> \<forall>i < left. key (ws ! i) \<le> key pivot
     \<Longrightarrow> \<forall>i. right \<le> i \<and> i < length ws \<longrightarrow> key pivot < key (ws ! i)
     \<Longrightarrow> binarySearch cmp pivot ws left right \<le> length ws
         \<and> (\<forall>i < binarySearch cmp pivot ws left right. key (ws ! i) \<le> key pivot)
         \<and> (\<forall>i. binarySearch cmp pivot ws left right \<le> i \<and> i < length ws
                \<longrightarrow> key pivot < key (ws ! i))"
proof (induction "right - left" arbitrary: left right rule: less_induct)
  case less
  show ?case
  proof (cases "left < right")
    case False
    then have "binarySearch cmp pivot ws left right = left"
      by (subst binarySearch.simps) simp
    with less.prems False show ?thesis by auto
  next
    case True
    define mid where "mid = left + (right - left) div 2"
    have mid: "left \<le> mid" "mid < right" using True by (auto simp: mid_def)
    then have len: "mid < length ws" using less.prems(2) by simp
    then have inS: "ws ! mid \<in> S" using ws nth_mem by blast
    have nth_le: "key (ws ! i) \<le> key (ws ! j)" if "i \<le> j" "j < length ws" for i j
      using srt that by (cases "i = j") (auto simp: sorted_wrt_iff_nth_less)
    show ?thesis
    proof (cases "orderNegative (cmp pivot (ws ! mid))")
      case neg: True
      then have lt: "key pivot < key (ws ! mid)" using keyed[OF p inS] by simp
      have eq: "binarySearch cmp pivot ws left right = binarySearch cmp pivot ws left mid"
        by (subst binarySearch.simps) (simp add: True neg mid_def[symmetric])
      have above: "\<forall>i. mid \<le> i \<and> i < length ws \<longrightarrow> key pivot < key (ws ! i)"
      proof (intro allI impI)
        fix i assume "mid \<le> i \<and> i < length ws"
        then have "key (ws ! mid) \<le> key (ws ! i)" using nth_le[of mid i] by simp
        with lt show "key pivot < key (ws ! i)" by simp
      qed
      have "mid - left < right - left" using mid by simp
      from less.hyps[OF this mid(1) _ less.prems(3) above] len
      show ?thesis by (simp add: eq)
    next
      case nonneg: False
      then have ge: "key (ws ! mid) \<le> key pivot" using keyed[OF p inS] by simp
      have eq: "binarySearch cmp pivot ws left right = binarySearch cmp pivot ws (mid + 1) right"
        by (subst binarySearch.simps) (simp add: True nonneg mid_def[symmetric])
      have below: "\<forall>i < mid + 1. key (ws ! i) \<le> key pivot"
      proof (intro allI impI)
        fix i assume "i < mid + 1"
        then have "key (ws ! i) \<le> key (ws ! mid)" using nth_le[of i mid] len by simp
        with ge show "key (ws ! i) \<le> key pivot" by simp
      qed
      have "right - (mid + 1) < right - left" using mid by simp
      moreover have "mid + 1 \<le> right" using mid by simp
      ultimately show ?thesis
        using less.hyps[of right "mid + 1", OF _ _ less.prems(2) below less.prems(4)]
        by (simp add: eq)
    qed
  qed
qed

lemma binaryInsert_keyed:
  assumes keyed: "\<And>x y. x \<in> S \<Longrightarrow> y \<in> S \<Longrightarrow> orderNegative (cmp x y) = ((key x :: 'k::linorder) < key y)"
    and ws: "set ws \<subseteq> S" and p: "pivot \<in> S"
    and srt: "sorted_wrt (\<lambda>a b. key a \<le> key b) ws"
  shows "sorted_wrt (\<lambda>a b. key a \<le> key b) (binaryInsert cmp ws pivot)"
    and "filter (\<lambda>x. key x = c) (binaryInsert cmp ws pivot)
           = filter (\<lambda>x. key x = c) ws @ filter (\<lambda>x. key x = c) [pivot]"
proof -
  define k where "k = binarySearch cmp pivot ws 0 (length ws)"
  have b: "k \<le> length ws" "\<forall>i < k. key (ws ! i) \<le> key pivot"
    "\<forall>i. k \<le> i \<and> i < length ws \<longrightarrow> key pivot < key (ws ! i)"
  proof -
    have h3: "\<forall>i < 0. key (ws ! i) \<le> key pivot" by simp
    have h4: "\<forall>i. length ws \<le> i \<and> i < length ws \<longrightarrow> key pivot < key (ws ! i)" by auto
    have "k \<le> length ws
         \<and> (\<forall>i < k. key (ws ! i) \<le> key pivot)
         \<and> (\<forall>i. k \<le> i \<and> i < length ws \<longrightarrow> key pivot < key (ws ! i))"
      unfolding k_def
      by (rule binarySearch_bounds[OF keyed ws p srt le0 order_refl h3 h4])
    then show "k \<le> length ws" "\<forall>i < k. key (ws ! i) \<le> key pivot"
      "\<forall>i. k \<le> i \<and> i < length ws \<longrightarrow> key pivot < key (ws ! i)" by blast+
  qed
  have lo: "\<forall>x \<in> set (take k ws). key x \<le> key pivot"
  proof
    fix x assume "x \<in> set (take k ws)"
    then obtain i where i: "i < length (take k ws)" "take k ws ! i = x"
      by (auto simp: in_set_conv_nth)
    then have "i < k" "ws ! i = x" by simp_all
    with b(2) show "key x \<le> key pivot" by blast
  qed
  have hi: "\<forall>x \<in> set (drop k ws). key pivot < key x"
  proof
    fix x assume "x \<in> set (drop k ws)"
    then obtain i where i: "i < length (drop k ws)" "drop k ws ! i = x"
      by (auto simp: in_set_conv_nth)
    then have "k + i < length ws" "ws ! (k + i) = x" using b(1) by simp_all
    with b(3)[rule_format, of "k + i"] show "key pivot < key x" by simp
  qed
  have parts: "sorted_wrt (\<lambda>a b. key a \<le> key b) (take k ws)"
    "sorted_wrt (\<lambda>a b. key a \<le> key b) (drop k ws)"
    using srt by (rule sorted_wrt_take, rule sorted_wrt_drop)
  have eq: "binaryInsert cmp ws pivot = take k ws @ pivot # drop k ws"
    by (simp add: binaryInsert_def k_def Let_def)
  have cross: "key x \<le> key y" if "x \<in> set (take k ws)" "y \<in> set (drop k ws)" for x y
  proof -
    have "key x \<le> key pivot" using lo that(1) by blast
    moreover have "key pivot < key y" using hi that(2) by blast
    ultimately show ?thesis by simp
  qed
  have hi': "\<forall>x \<in> set (drop k ws). key pivot \<le> key x"
    using hi by (simp add: less_imp_le)
  show "sorted_wrt (\<lambda>a b. key a \<le> key b) (binaryInsert cmp ws pivot)"
    unfolding eq using lo hi' parts cross by (simp add: sorted_wrt_append)
  have split: "filter (\<lambda>x. key x = c) ws
                 = filter (\<lambda>x. key x = c) (take k ws) @ filter (\<lambda>x. key x = c) (drop k ws)"
    by (metis append_take_drop_id filter_append)
  show "filter (\<lambda>x. key x = c) (binaryInsert cmp ws pivot)
           = filter (\<lambda>x. key x = c) ws @ filter (\<lambda>x. key x = c) [pivot]"
  proof (cases "key pivot = c")
    case True
    then have "\<forall>x \<in> set (drop k ws). key x \<noteq> c" using hi by auto
    then have "filter (\<lambda>x. key x = c) (drop k ws) = []" by (simp add: filter_empty_conv)
    with True show ?thesis by (simp add: eq split)
  next
    case False
    then show ?thesis by (simp add: eq split)
  qed
qed

lemma foldl_binaryInsert_keyed:
  assumes keyed: "\<And>x y. x \<in> S \<Longrightarrow> y \<in> S \<Longrightarrow> orderNegative (cmp x y) = ((key x :: 'k::linorder) < key y)"
  shows "set run \<subseteq> S \<Longrightarrow> set remaining \<subseteq> S
     \<Longrightarrow> sorted_wrt (\<lambda>a b. key a \<le> key b) run
     \<Longrightarrow> sorted_wrt (\<lambda>a b. key a \<le> key b) (foldl (binaryInsert cmp) run remaining)
         \<and> filter (\<lambda>x. key x = c) (foldl (binaryInsert cmp) run remaining)
             = filter (\<lambda>x. key x = c) run @ filter (\<lambda>x. key x = c) remaining"
proof (induction remaining arbitrary: run)
  case Nil
  then show ?case by simp
next
  case (Cons p ps)
  have p: "p \<in> S" and ps: "set ps \<subseteq> S" using Cons.prems(2) by auto
  have s: "sorted_wrt (\<lambda>a b. key a \<le> key b) (binaryInsert cmp run p)"
    by (rule binaryInsert_keyed(1)[OF keyed Cons.prems(1) p Cons.prems(3)])
  have f: "filter (\<lambda>x. key x = c) (binaryInsert cmp run p)
              = filter (\<lambda>x. key x = c) run @ filter (\<lambda>x. key x = c) [p]"
    by (rule binaryInsert_keyed(2)[OF keyed Cons.prems(1) p Cons.prems(3)])
  have "set (binaryInsert cmp run p) \<subseteq> S"
    using Cons.prems(1) p by (simp add: set_binaryInsert)
  from Cons.IH[OF this ps s] f show ?case by simp
qed

lemma runTail_ascending:
  assumes keyed: "\<And>x y. x \<in> S \<Longrightarrow> y \<in> S \<Longrightarrow> orderNegative (cmp x y) = ((key x :: 'k::linorder) < key y)"
  shows "runTail False cmp p cs = (r, rest) \<Longrightarrow> p \<in> S \<Longrightarrow> set cs \<subseteq> S
     \<Longrightarrow> sorted_wrt (\<lambda>a b. key a \<le> key b) (p # r)"
proof (induction cs arbitrary: p r rest)
  case Nil
  then show ?case by simp
next
  case (Cons c cs)
  show ?case
  proof (cases "orderNegative (cmp c p)")
    case True
    with Cons.prems show ?thesis by simp
  next
    case False
    then obtain r' where r: "runTail False cmp c cs = (r', rest)" "r = c # r'"
      using Cons.prems(1) by (auto split: prod.splits)
    have c: "c \<in> S" "set cs \<subseteq> S" using Cons.prems(3) by auto
    have le: "key p \<le> key c" using False keyed[OF c(1) Cons.prems(2)] by simp
    have "sorted_wrt (\<lambda>a b. key a \<le> key b) (c # r')" using Cons.IH[OF r(1) c] .
    with le r(2) show ?thesis by auto
  qed
qed

lemma runTail_descending:
  assumes keyed: "\<And>x y. x \<in> S \<Longrightarrow> y \<in> S \<Longrightarrow> orderNegative (cmp x y) = ((key x :: 'k::linorder) < key y)"
  shows "runTail True cmp p cs = (r, rest) \<Longrightarrow> p \<in> S \<Longrightarrow> set cs \<subseteq> S
     \<Longrightarrow> sorted_wrt (\<lambda>a b. key b < key a) (p # r)"
proof (induction cs arbitrary: p r rest)
  case Nil
  then show ?case by simp
next
  case (Cons c cs)
  show ?case
  proof (cases "orderNegative (cmp c p)")
    case False
    with Cons.prems show ?thesis by simp
  next
    case True
    then obtain r' where r: "runTail True cmp c cs = (r', rest)" "r = c # r'"
      using Cons.prems(1) by (auto split: prod.splits)
    have c: "c \<in> S" "set cs \<subseteq> S" using Cons.prems(3) by auto
    have lt: "key c < key p" using True keyed[OF c(1) Cons.prems(2)] by simp
    have "sorted_wrt (\<lambda>a b. key b < key a) (c # r')" using Cons.IH[OF r(1) c] .
    with lt r(2) show ?thesis by auto
  qed
qed

lemma strictly_descending_filter:
  "sorted_wrt (\<lambda>a b. (key b :: 'k::linorder) < key a) xs
     \<Longrightarrow> filter (\<lambda>x. key x = c) (rev xs) = filter (\<lambda>x. key x = c) xs"
proof (induction xs)
  case Nil
  then show ?case by simp
next
  case (Cons x xs)
  then have ih: "filter (\<lambda>x. key x = c) (rev xs) = filter (\<lambda>x. key x = c) xs" by simp
  show ?case
  proof (cases "key x = c")
    case True
    then have "filter (\<lambda>x. key x = c) xs = []"
      using Cons.prems by (auto simp: filter_empty_conv)
    with ih True show ?thesis by simp
  next
    case False
    with ih show ?thesis by simp
  qed
qed

lemma countAndMakeRun_keyed:
  assumes keyed: "\<And>x y. x \<in> S \<Longrightarrow> y \<in> S \<Longrightarrow> orderNegative (cmp x y) = ((key x :: 'k::linorder) < key y)"
    and xs: "set xs \<subseteq> S" and c: "countAndMakeRun cmp xs = (run, remaining)"
  shows "sorted_wrt (\<lambda>a b. key a \<le> key b) run
       \<and> filter (\<lambda>x. key x = c) run @ filter (\<lambda>x. key x = c) remaining
           = filter (\<lambda>x. key x = c) xs"
proof (cases xs)
  case Nil
  with c show ?thesis by (simp add: countAndMakeRun_def)
next
  case (Cons x0 ys)
  show ?thesis
  proof (cases ys)
    case Nil
    with c Cons show ?thesis by (auto simp: countAndMakeRun_def)
  next
    case (Cons x1 rest)
    have xs_eq: "xs = x0 # x1 # rest" using \<open>xs = x0 # ys\<close> Cons by simp
    have mem: "x0 \<in> S" "x1 \<in> S" "set rest \<subseteq> S" using xs xs_eq by auto
    obtain r rem where rt: "runTail (orderNegative (cmp x1 x0)) cmp x1 rest = (r, rem)"
      by (cases "runTail (orderNegative (cmp x1 x0)) cmp x1 rest") auto
    have app: "r @ rem = rest" using runTail_append[OF rt] .
    show ?thesis
    proof (cases "orderNegative (cmp x1 x0)")
      case False
      then have le: "key x0 \<le> key x1" using keyed[OF mem(2) mem(1)] by simp
      have run: "run = x0 # x1 # r" and rem: "remaining = rem"
        using c rt False by (simp_all add: countAndMakeRun_def xs_eq)
      have rtF: "runTail False cmp x1 rest = (r, rem)" using rt False by simp
      have "sorted_wrt (\<lambda>a b. key a \<le> key b) (x1 # r)"
        by (rule runTail_ascending[OF keyed rtF mem(2) mem(3)])
      then have "sorted_wrt (\<lambda>a b. key a \<le> key b) run"
        unfolding run using le by (auto intro: order_trans)
      moreover have "run @ remaining = xs" using app run rem xs_eq by simp
      then have "filter (\<lambda>x. key x = c) run @ filter (\<lambda>x. key x = c) remaining
                   = filter (\<lambda>x. key x = c) xs"
        using filter_append[of "\<lambda>x. key x = c" run remaining] by simp
      ultimately show ?thesis by simp
    next
      case True
      then have lt: "key x1 < key x0" using keyed[OF mem(2) mem(1)] by simp
      have run: "run = rev (x0 # x1 # r)" and rem: "remaining = rem"
        using c rt True by (simp_all add: countAndMakeRun_def xs_eq)
      have rtT: "runTail True cmp x1 rest = (r, rem)" using rt True by simp
      have d1: "sorted_wrt (\<lambda>a b. key b < key a) (x1 # r)"
        by (rule runTail_descending[OF keyed rtT mem(2) mem(3)])
      have d: "sorted_wrt (\<lambda>a b. key b < key a) (x0 # x1 # r)"
      proof -
        have "key z < key x0" if "z \<in> set r" for z
        proof -
          have "key z < key x1" using d1 that by simp
          with lt show ?thesis by simp
        qed
        with d1 lt show ?thesis by simp
      qed
      then have "sorted_wrt (\<lambda>a b. key b \<le> key a) (x0 # x1 # r)"
        by (rule sorted_wrt_mono_rel[rotated]) simp
      then have s: "sorted_wrt (\<lambda>a b. key a \<le> key b) run"
        unfolding run by (simp only: sorted_wrt_rev)
      have "filter (\<lambda>x. key x = c) run = filter (\<lambda>x. key x = c) (x0 # x1 # r)"
        unfolding run using strictly_descending_filter[OF d] .
      moreover have "(x0 # x1 # r) @ remaining = xs" using app rem xs_eq by simp
      then have "filter (\<lambda>x. key x = c) (x0 # x1 # r) @ filter (\<lambda>x. key x = c) remaining
                   = filter (\<lambda>x. key x = c) xs"
        using filter_append[of "\<lambda>x. key x = c" "x0 # x1 # r" remaining] by simp
      ultimately show ?thesis using s by simp
    qed
  qed
qed

lemma sortBy_keyed:
  assumes keyed: "\<And>x y. x \<in> S \<Longrightarrow> y \<in> S \<Longrightarrow> orderNegative (cmp x y) = ((key x :: 'k::linorder) < key y)"
    and xs: "set xs \<subseteq> S"
  shows "sortBy cmp xs = sort_key key xs"
proof -
  have both: "sorted_wrt (\<lambda>a b. key a \<le> key b) (sortBy cmp xs)
              \<and> filter (\<lambda>x. key x = c) (sortBy cmp xs) = filter (\<lambda>x. key x = c) xs" for c
  proof (cases "length xs < 2")
    case True
    then have "sortBy cmp xs = xs" by (simp add: sortBy_def)
    moreover have "sorted_wrt (\<lambda>a b. key a \<le> key b) xs"
      using True by (cases xs) (auto simp: less_Suc_eq)
    ultimately show ?thesis by simp
  next
    case False
    obtain run rem where c: "countAndMakeRun cmp xs = (run, rem)"
      by (cases "countAndMakeRun cmp xs") auto
    have eq: "sortBy cmp xs = foldl (binaryInsert cmp) run rem"
      using False c by (simp add: sortBy_def)
    have "set run \<union> set rem = set xs"
      using mset_countAndMakeRun[OF c] by (metis set_mset_mset set_mset_union)
    then have sub: "set run \<subseteq> S" "set rem \<subseteq> S" using xs by auto
    note rr = countAndMakeRun_keyed[OF keyed xs c, of c]
    have r: "sorted_wrt (\<lambda>a b. key a \<le> key b) run"
      "filter (\<lambda>x. key x = c) run @ filter (\<lambda>x. key x = c) rem = filter (\<lambda>x. key x = c) xs"
      using rr by blast+
    have "sorted_wrt (\<lambda>a b. key a \<le> key b) (foldl (binaryInsert cmp) run rem)
         \<and> filter (\<lambda>x. key x = c) (foldl (binaryInsert cmp) run rem)
             = filter (\<lambda>x. key x = c) run @ filter (\<lambda>x. key x = c) rem"
      by (rule foldl_binaryInsert_keyed[OF keyed sub(1) sub(2) r(1)])
    with r(2) eq show ?thesis by simp
  qed
  show ?thesis
  proof (rule properties_for_sort_key[symmetric])
    show "mset (sortBy cmp xs) = mset xs" by (rule mset_sortBy)
    show "sorted (map key (sortBy cmp xs))" using both by (simp add: sorted_map)
    show "filter (\<lambda>x. key k = key x) (sortBy cmp xs) = filter (\<lambda>x. key k = key x) xs" for k
    proof -
      have "(\<lambda>x. key k = key x) = (\<lambda>x. key x = key k)" by auto
      then show ?thesis using both[of "key k"] by (simp only:)
    qed
  qed
qed

lemma sorted_sortBy_score:
  "sorted_wrt (\<lambda>a b. score b \<le> score a) (sortBy (\<lambda>a b. Fin (score b - score a)) xs)"
proof -
  have "sortBy (\<lambda>a b. Fin (score b - score a)) xs = sort_key (\<lambda>c. - score c) xs"
    by (rule sortBy_keyed[where S = UNIV]) (auto simp: orderNegative_def)
  moreover have "sorted (map (\<lambda>c. - score c) (sort_key (\<lambda>c. - score c) xs))"
    by (rule sorted_sort_key)
  ultimately show ?thesis by (simp add: sorted_map)
qed

lemma two_positions_filter:
  assumes "i < length xs" "j < length xs" "i \<noteq> j" "P (xs ! i)" "P (xs ! j)"
  shows "1 < length (filter P xs)"
proof -
  have "{i, j} \<subseteq> {k. k < length xs \<and> P (xs ! k)}" using assms by auto
  then have "card {i, j} \<le> card {k. k < length xs \<and> P (xs ! k)}"
    by (intro card_mono) auto
  then show ?thesis using assms(3) by (simp add: length_filter_conv_card)
qed

lemma bestByScore_tie:
  assumes "i < length cs" "j < length cs" "i \<noteq> j"
    and "\<forall>c \<in> set cs. score c \<le> score (cs ! i)"
    and "score (cs ! i) \<le> score (cs ! j)"
  shows "bestByScore cs = None"
proof -
  let ?s = "sortBy (\<lambda>a b. Fin (score b - score a)) cs"
  from assms(1) have ne: "cs \<noteq> []" by auto
  then have "?s \<noteq> []" by (metis set_sortBy set_empty)
  then obtain best rest where s: "?s = best # rest" by (cases ?s) auto
  have "best \<in> set cs" using s set_sortBy by (metis list.set_intros(1))
  then have le: "score best \<le> score (cs ! i)" using assms(4) by blast
  have "cs ! i \<in> set ?s" using assms(1) by (simp add: set_sortBy)
  then have ge: "score (cs ! i) \<le> score best"
    using sorted_sortBy_score[of cs] s by auto
  have "score (cs ! j) \<le> score (cs ! i)" using assms(2,4) by simp
  then have "score (cs ! i) = score best" "score (cs ! j) = score best"
    using le ge assms(5) by auto
  then have "1 < length (filter (\<lambda>c. score c = score best) cs)"
    using two_positions_filter[OF assms(1,2,3)] by simp
  then have "1 < length (filter (\<lambda>c. score c = score best) (best # rest))"
    using length_filter_sortBy[of _ _ cs] s by metis
  then show ?thesis using ne s by (simp add: bestByScore_def)
qed

lemma find_hd_filter: "\<exists>x \<in> set xs. P x \<Longrightarrow> find P xs = Some (hd (filter P xs))"
  by (induction xs) auto

lemma find_none: "\<not> (\<exists>x \<in> set xs. P x) \<Longrightarrow> find P xs = None"
  by (induction xs) auto

lemma strict_eq_finite: "isFinite n \<Longrightarrow> strict_eq a n = (a = n)"
  by (cases n) (auto simp: strict_eq_def)

section \<open>Properties of the staleness sweep\<close>

lemma runsOf_sanitize:
  "runsOf (sanitizeTrainLiveState train now) = filter (\<lambda>run. isRunFresh run now) (runsOf train)"
proof (cases "liveRuns train")
  case None
  then show ?thesis
    by (simp add: sanitizeTrainLiveState_def runsOf_def resetTrainLiveState_def)
next
  case (Some runs)
  show ?thesis
  proof (cases "filter (\<lambda>run. isRunFresh run now) runs")
    case Nil
    with Some show ?thesis
      by (simp add: sanitizeTrainLiveState_def runsOf_def resetTrainLiveState_def noRuns_def)
  next
    case (Cons f fs)
    then have ne: "runs \<noteq> []" by auto
    have same: "length (filter (\<lambda>run. isRunFresh run now) runs) = length runs
                 \<Longrightarrow> filter (\<lambda>run. isRunFresh run now) runs = runs"
      by (metis filter_True length_filter_less linorder_neq_iff  )
    show ?thesis using Some Cons ne same
      by (auto simp: sanitizeTrainLiveState_def runsOf_def Let_def)
  qed
qed

lemma stale_run: "\<not> isRunFresh run (Fin n)" if "lastUpdated run = Fin (n - 10 * 60 * 1000 - 1)"
  using that by (simp add: isRunFresh_def STALE_LIVE_RUN_TTL_MS_def)

lemma fresh_run: "isRunFresh run (Fin n)" if "lastUpdated run = Fin (n - 10 * 60 * 1000 + 1)"
  using that by (simp add: isRunFresh_def STALE_LIVE_RUN_TTL_MS_def)


text \<open>
  Claim C4. With TTL = 10 minutes, one sweep at time \<open>now\<close> removes from its train's run
  set every run with \<open>lastUpdated = now - TTL - 1ms\<close> and keeps every run with
  \<open>lastUpdated = now - TTL + 1ms\<close>.
\<close>

theorem ttl_eviction:
  assumes "i < length trains" and "run \<in> set (runsOf (trains ! i))"
  shows "(lastUpdated run = Fin (n - 10 * 60 * 1000 - 1)
            \<longrightarrow> run \<notin> set (runsOf (stripStaleLiveData trains (Fin n) ! i)))
       \<and> (lastUpdated run = Fin (n - 10 * 60 * 1000 + 1)
            \<longrightarrow> run \<in> set (runsOf (stripStaleLiveData trains (Fin n) ! i)))"
  using assms stale_run fresh_run by (simp add: stripStaleLiveData_def runsOf_sanitize)

text \<open>The sweep at the example time drops the run that is 1 ms too old and keeps the other.\<close>

theorem ttl_eviction_witness:
  "ex_run_stale \<in> set (runsOf ex_train_two_runs)
   \<and> ex_run_fresh \<in> set (runsOf ex_train_two_runs)
   \<and> lastUpdated ex_run_stale = Fin (ex_now - 10 * 60 * 1000 - 1)
   \<and> lastUpdated ex_run_fresh = Fin (ex_now - 10 * 60 * 1000 + 1)
   \<and> ex_run_stale \<notin> set (runsOf (stripStaleLiveData [ex_train_two_runs] (Fin ex_now) ! 0))
   \<and> ex_run_fresh \<in> set (runsOf (stripStaleLiveData [ex_train_two_runs] (Fin ex_now) ! 0))"
proof -
  have len: "0 < length [ex_train_two_runs]" by simp
  have rs: "runsOf ([ex_train_two_runs] ! 0) = [ex_run_fresh, ex_run_stale]"
    by (simp add: runsOf_def ex_train_two_runs_def)
  have s: "lastUpdated ex_run_stale = Fin (ex_now - 10 * 60 * 1000 - 1)"
    by (simp add: ex_run_stale_def)
  have f: "lastUpdated ex_run_fresh = Fin (ex_now - 10 * 60 * 1000 + 1)"
    by (simp add: ex_run_fresh_def)
  have ms: "ex_run_stale \<in> set (runsOf ([ex_train_two_runs] ! 0))" using rs by simp
  have mf: "ex_run_fresh \<in> set (runsOf ([ex_train_two_runs] ! 0))" using rs by simp
  show ?thesis
    using ttl_eviction [OF len ms, of ex_now] ttl_eviction [OF len mf, of ex_now] s f ms mf
    by simp
qed

text \<open>
  Claim C5, as the code has it. When a sweep removes the last run of a train, the train is
  reset in one step: \<open>selectedRunId\<close>, \<open>livePosition\<close>, \<open>previousStop\<close> and the run
  list are cleared and the is-live flag is false, while \<open>upcomingStop\<close> is set to the
  first stop of the route (absent only for an empty route).
\<close>

theorem atomic_reset:
  assumes "runsOf train \<noteq> []" and "runsOf (sanitizeTrainLiveState train now) = []"
  shows "sanitizeTrainLiveState train now =
           train\<lparr>IsLive := False, livePosition := None, liveRuns := None,
                 selectedRunId := None, upcomingStop := firstStop (route train),
                 previousStop := None\<rparr>"
proof -
  from assms(1) obtain runs where r: "liveRuns train = Some runs" "runs \<noteq> []"
    by (auto simp: runsOf_def split: option.splits)
  from assms(2) have "filter (\<lambda>run. isRunFresh run now) runs = []"
    using r by (simp add: runsOf_sanitize) (simp add: runsOf_def)
  with r show ?thesis
    by (simp add: sanitizeTrainLiveState_def resetTrainLiveState_def noRuns_def)
qed

text \<open>The example train loses its last run and is back at its static state.\<close>

theorem atomic_reset_witness:
  "runsOf ex_train_last_run \<noteq> []
   \<and> runsOf (sanitizeTrainLiveState ex_train_last_run (Fin ex_now)) = []
   \<and> sanitizeTrainLiveState ex_train_last_run (Fin ex_now) = ex_train5"
proof -
  have a: "runsOf ex_train_last_run \<noteq> []" by code_simp
  have b: "runsOf (sanitizeTrainLiveState ex_train_last_run (Fin ex_now)) = []" by code_simp
  have c: "ex_train_last_run\<lparr>IsLive := False, livePosition := None, liveRuns := None,
             selectedRunId := None, upcomingStop := firstStop (route ex_train_last_run),
             previousStop := None\<rparr> = ex_train5"
    by code_simp
  show ?thesis using atomic_reset [OF a b] a b c by simp
qed

text \<open>
  Claim C5 as stated fails: after the sweep removed the last run, \<open>upcomingStop\<close> is not
  cleared but holds the first stop of the route.
\<close>

theorem atomic_reset_counterexample:
  "runsOf ex_train_last_run = [ex_run_stale]
   \<and> runsOf (sanitizeTrainLiveState ex_train_last_run (Fin ex_now)) = []
   \<and> upcomingStop (sanitizeTrainLiveState ex_train_last_run (Fin ex_now)) = Some ex_stop12"
  by code_simp

section \<open>Properties of the resolver\<close>

text \<open>
  Claim C1. When the train-number short-circuit does not settle the delta and, among the
  candidates with a positive score, a candidate of highest score is matched or exceeded by
  another candidate, \<open>findMatchingTrainId\<close> returns no train.
\<close>

theorem tie_is_unresolved:
  assumes "numberMatch trains delta = None"
    and "i < length (scoredCandidates trains delta)"
    and "j < length (scoredCandidates trains delta)"
    and "i \<noteq> j"
    and "\<forall>c \<in> set (scoredCandidates trains delta). score c \<le> score (scoredCandidates trains delta ! i)"
    and "score (scoredCandidates trains delta ! i) \<le> score (scoredCandidates trains delta ! j)"
  shows "findMatchingTrainId trains delta = None"
  using assms(1) bestByScore_tie[OF assms(2-6)] by (simp add: findMatchingTrainId_def)

text \<open>Two trains with locomotive LOCO-9 both score 10 and the delta stays unresolved.\<close>

theorem tie_is_unresolved_witness:
  "numberMatch [ex_train5, ex_train6] ex_delta_loco = None
   \<and> map score (scoredCandidates [ex_train5, ex_train6] ex_delta_loco) = [10, 10]
   \<and> findMatchingTrainId [ex_train5, ex_train6] ex_delta_loco = None"
proof -
  let ?cs = "scoredCandidates [ex_train5, ex_train6] ex_delta_loco"
  have nm: "numberMatch [ex_train5, ex_train6] ex_delta_loco = None"
    by code_simp
  have sc: "map score ?cs = [10, 10]"
    by code_simp
  have len: "0 < length ?cs" "1 < length ?cs"
    by code_simp+
  have top: "\<forall>c \<in> set ?cs. score c \<le> score (?cs ! 0)"
    by code_simp
  have tie: "score (?cs ! 0) \<le> score (?cs ! 1)"
    by code_simp
  have "findMatchingTrainId [ex_train5, ex_train6] ex_delta_loco = None"
    using tie_is_unresolved [OF nm len(1) len(2) _ top tie] by simp
  with nm sc show ?thesis by simp
qed

text \<open>
  Claim C2, as the code has it. The short-circuit is taken exactly when the delta carries a
  finite train-number hint and at least one train has that number; it returns the id of the
  first such train in collection order and bypasses scoring. Otherwise the result is that
  of the scoring path.
\<close>

theorem number_short_circuit:
  "findMatchingTrainId trains delta =
     (case trainNumber delta of
        None \<Rightarrow> bestByScore (scoredCandidates trains delta)
      | Some n \<Rightarrow>
          if isFinite n \<and> (\<exists>t \<in> set trains. TrainNumber t = n)
          then Some (TrainId (hd (filter (\<lambda>t. TrainNumber t = n) trains)))
          else bestByScore (scoredCandidates trains delta))"
proof (cases "trainNumber delta")
  case None
  then show ?thesis by (simp add: findMatchingTrainId_def numberMatch_def)
next
  case (Some n)
  show ?thesis
  proof (cases "isFinite n \<and> (\<exists>t \<in> set trains. TrainNumber t = n)")
    case True
    then have "find (\<lambda>t. strict_eq (TrainNumber t) n) trains
                 = Some (hd (filter (\<lambda>t. TrainNumber t = n) trains))"
      using find_hd_filter[of trains "\<lambda>t. TrainNumber t = n"] by (simp add: strict_eq_finite)
    with Some True show ?thesis by (simp add: findMatchingTrainId_def numberMatch_def)
  next
    case False
    then have "numberMatch trains delta = None"
      using Some find_none[of trains "\<lambda>t. TrainNumber t = n"]
      by (auto simp: numberMatch_def strict_eq_finite)
    with Some False show ?thesis by (auto simp: findMatchingTrainId_def)
  qed
qed

text \<open>Of two trains numbered 123 the short-circuit returns the first in the collection.\<close>

theorem number_short_circuit_witness:
  "findMatchingTrainId [ex_train7, ex_train5, ex_train6] ex_delta = Some (Fin 5)"
proof -
  have "trainNumber ex_delta = Some (Fin 123)" by code_simp
  moreover have "hd (filter (\<lambda>t. TrainNumber t = Fin 123) [ex_train7, ex_train5, ex_train6]) = ex_train5"
    by code_simp
  moreover have "\<exists>t \<in> set [ex_train7, ex_train5, ex_train6]. TrainNumber t = Fin 123"
    by code_simp
  moreover have "TrainId ex_train5 = Fin 5" by code_simp
  ultimately show ?thesis
    using number_short_circuit [of "[ex_train7, ex_train5, ex_train6]" ex_delta] by simp
qed

text \<open>
  Claim C2 as stated fails: two trains share the train number 123, the delta gives no other
  evidence (no candidate has a positive score), and the resolver returns the first of them.
\<close>

theorem number_short_circuit_counterexample:
  "TrainNumber ex_train5 = Fin 123 \<and> TrainNumber ex_train6 = Fin 123
   \<and> TrainId ex_train5 \<noteq> TrainId ex_train6
   \<and> trainNumber ex_delta = Some (Fin 123)
   \<and> scoredCandidates [ex_train5, ex_train6] ex_delta = []
   \<and> findMatchingTrainId [ex_train5, ex_train6] ex_delta = Some (TrainId ex_train5)"
  by code_simp

section \<open>Properties of the run merger\<close>








section \<open>Properties of the cold-start replay\<close>










text \<open>
  The replay fails only where the date conversion of \<open>getTrainUniqueKey\<close> throws: with a
  conversion that is defined on every date string it returns a dataset.
\<close>

lemma replayUpdate_returns:
  assumes "\<And>t. \<exists>k. keyOf t = Inr k"
  shows "\<exists>trains'. replayUpdate keyOf pins target delta trains = Inr trains'"
proof (induction trains)
  case Nil
  show ?case by simp
next
  case (Cons t ts)
  then obtain ts' where "replayUpdate keyOf pins target delta ts = Inr ts'" by blast
  moreover obtain k where "keyOf t = Inr k" using assms by blast
  ultimately show ?case by simp
qed

lemma replayDelta_returns:
  assumes "\<And>t. \<exists>k. keyOf t = Inr k"
  shows "\<exists>st'. replayDelta keyOf st delta = Inr st'"
proof -
  define target where
    "target = (case rp_trainKeyToId st (trainKey delta) of
                 Some v \<Rightarrow> Some v
               | None \<Rightarrow> findMatchingTrainId (rp_trains st) delta)"
  obtain updated where
    u: "replayUpdate keyOf (rp_selectedRunIds st) (the target) delta (rp_trains st) = Inr updated"
    using replayUpdate_returns[of keyOf] assms by blast
  show ?thesis
  proof (cases "find (\<lambda>t. strict_eq (TrainId t) (the target)) updated")
    case None
    with u show ?thesis by (simp add: replayDelta_def Let_def target_def[symmetric])
  next
    case (Some ut)
    obtain k where "keyOf ut = Inr k" using assms by blast
    with u Some show ?thesis by (simp add: replayDelta_def Let_def target_def[symmetric])
  qed
qed

lemma replayAll_returns:
  assumes "\<And>t. \<exists>k. keyOf t = Inr k"
  shows "\<exists>st'. replayAll keyOf st deltas = Inr st'"
proof (induction deltas arbitrary: st)
  case Nil
  show ?case by simp
next
  case (Cons d ds)
  obtain st1 where "replayDelta keyOf st d = Inr st1"
    using replayDelta_returns[of keyOf] assms by blast
  then show ?case using Cons.IH[of st1] by simp
qed

lemma applyStoredLiveDeltas_returns:
  assumes "\<And>s. isoDay s \<noteq> None"
  shows "\<exists>result. applyStoredLiveDeltas toStr isoDay now staticTrains deltas = Inr result"
proof -
  have "\<exists>k. getTrainUniqueKey toStr isoDay t = Inr k" for t
    using assms[of "the (AllocatedDate t)"] by (auto simp: getTrainUniqueKey_def)
  then obtain st where
    "replayAll (getTrainUniqueKey toStr isoDay)
       \<lparr>rp_trains = staticTrains, rp_trainKeyToId = Map.empty,
        rp_selectedRunIds = Map.empty\<rparr> deltas = Inr st"
    using replayAll_returns[of "getTrainUniqueKey toStr isoDay"] by blast
  then show ?thesis by (simp add: applyStoredLiveDeltas_def)
qed




section \<open>Properties of the scoring\<close>

lemma find_found: "(find P xs \<noteq> None) = list_ex P xs"
  by (induction xs) auto

lemma find_found_ex: "(\<exists>y. find P xs = Some y) = list_ex P xs"
  using find_found[of P xs] by auto

lemma score_addEvidence:
  "score (addEvidence found weight tag c) = score c + (if found then weight else 0)"
  by (simp add: addEvidence_def)

lemma cand_train_addEvidence: "cand_train (addEvidence found weight tag c) = cand_train c"
  by (simp add: addEvidence_def)

lemma stop_found:
  "((if opt_num_truthy sid then findStopByStationId rt sid else None) \<noteq> None)
     = stationInRoute sid rt"
proof (cases sid)
  case None
  then show ?thesis by (simp add: stationInRoute_def)
next
  case (Some n)
  have "stationIdIs (Some n) = (\<lambda>stop. strict_eq (StationId stop) n)"
    by (simp add: stationIdIs_def fun_eq_iff)
  with Some show ?thesis
    by (simp add: stationInRoute_def findStopByStationId_def find_found_ex)
qed

lemma findIndex_found:
  "list_ex P xs \<Longrightarrow> findIndex P xs = int (length (takeWhile (\<lambda>x. \<not> P x) xs))"
  by (induction xs) (auto simp: Let_def)

lemma order_bonus:
  assumes "stationInRoute nsid rt" and "stationInRoute psid rt"
  shows "(findIndex (stationIdIs psid) rt \<noteq> -1 \<and> findIndex (stationIdIs nsid) rt \<noteq> -1
          \<and> findIndex (stationIdIs psid) rt < findIndex (stationIdIs nsid) rt)
         = (routePosition psid rt < routePosition nsid rt)"
  using assms by (simp add: stationInRoute_def findIndex_found routePosition_def)

lemma score_closed_form:
  "score (scoreCandidate delta train) =
       (if locomotiveMatch delta train then 10 else 0)
     + (if stationInRoute (nextStationId delta) (route train) then 4 else 0)
     + (if stationInRoute (prevStationId delta) (route train) then 4 else 0)
     + (if stationInRoute (nextStationId delta) (route train)
           \<and> stationInRoute (prevStationId delta) (route train)
           \<and> routePosition (prevStationId delta) (route train)
               < routePosition (nextStationId delta) (route train)
        then 1 else 0)
     + (if directionMatch delta train then 1 else 0)
     + (if stopNameMatch delta train then 1 / 2
        else if trainNameHint delta train then 1 / 4 else 0)"
proof -
  have loco: "(str_truthy (locomitiveNo delta) \<and> str_truthy (LocomotiveNumber train)
               \<and> locomitiveNo delta = LocomotiveNumber train) = locomotiveMatch delta train"
    by (cases "locomitiveNo delta") (auto simp: locomotiveMatch_def)
  have dir: "score (case directionFlag delta of
                      None \<Rightarrow> c
                    | Some flag \<Rightarrow> addEvidence (IsUp train = flag) 1 ''direction'' c)
               = score c + (if directionMatch delta train then 1 else 0)" for c
    by (auto simp: directionFlag_def directionMatch_def score_addEvidence)
  have ord: "score (if stationInRoute (nextStationId delta) (route train)
                       \<and> stationInRoute (prevStationId delta) (route train)
                    then addEvidence
                           (findIndex (stationIdIs (prevStationId delta)) (route train) \<noteq> -1
                            \<and> findIndex (stationIdIs (nextStationId delta)) (route train) \<noteq> -1
                            \<and> findIndex (stationIdIs (prevStationId delta)) (route train)
                                < findIndex (stationIdIs (nextStationId delta)) (route train))
                           1 ''stationOrder'' c
                    else c)
               = score c
                 + (if stationInRoute (nextStationId delta) (route train)
                       \<and> stationInRoute (prevStationId delta) (route train)
                       \<and> routePosition (prevStationId delta) (route train)
                           < routePosition (nextStationId delta) (route train)
                    then 1 else 0)" for c
    by (simp add: score_addEvidence order_bonus)
  have name: "score (if str_truthy (nextStopName delta)
                     then if list_ex (\<lambda>stop. toLowerCase (StationName stop)
                                               = toLowerCase (the (nextStopName delta)))
                               (route train)
                          then addEvidence True (1 / 2) ''nextStopName'' c
                          else addEvidence
                                 (includes_str (toLowerCase (TrainName train))
                                    (toLowerCase (the (nextStopName delta))))
                                 (1 / 4) ''trainNameHint'' c
                     else c)
                = score c
                  + (if stopNameMatch delta train then 1 / 2
                     else if trainNameHint delta train then 1 / 4 else 0)" for c
    by (cases "nextStopName delta")
       (auto simp: stopNameMatch_def trainNameHint_def score_addEvidence)
  show ?thesis
    unfolding scoreCandidate_def Let_def stop_found loco
    by (simp only: name dir ord score_addEvidence) simp
qed

lemma cand_train_scoreCandidate: "cand_train (scoreCandidate delta train) = train"
  unfolding scoreCandidate_def Let_def
  by (simp add: cand_train_addEvidence split: option.splits)

text \<open>
  Claim C3, as the code has it. The score of a train against a delta is the sum of +10 if
  both locomotive identifiers are present, not empty and equal; +4 if the next-station id
  is present, not zero and found in the route; +4 likewise for the previous-station id; +1
  more if both are found and the previous station's position in the route precedes the
  next station's; +1 if a known direction hint matches the direction flag; +0.5 if the
  next-stop name is not empty and matches a station name of the route case-insensitively,
  else +0.25 if it is not empty and occurs in the train name case-insensitively. The
  candidates considered are exactly the scored trains with a positive score.
\<close>

theorem score_is_weighted_sum:
  "score (scoreCandidate delta train) =
       (if locomotiveMatch delta train then 10 else 0)
     + (if stationInRoute (nextStationId delta) (route train) then 4 else 0)
     + (if stationInRoute (prevStationId delta) (route train) then 4 else 0)
     + (if stationInRoute (nextStationId delta) (route train)
           \<and> stationInRoute (prevStationId delta) (route train)
           \<and> routePosition (prevStationId delta) (route train)
               < routePosition (nextStationId delta) (route train)
        then 1 else 0)
     + (if directionMatch delta train then 1 else 0)
     + (if stopNameMatch delta train then 1 / 2
        else if trainNameHint delta train then 1 / 4 else 0)
   \<and> cand_train (scoreCandidate delta train) = train
   \<and> set (scoredCandidates trains delta)
       = {c \<in> scoreCandidate delta ` set trains. 0 < score c}"
proof (intro conjI)
  show "set (scoredCandidates trains delta) = {c \<in> scoreCandidate delta ` set trains. 0 < score c}"
    by (auto simp: scoredCandidates_def)
qed (rule score_closed_form, rule cand_train_scoreCandidate)

text \<open>A delta with every kind of evidence for train 5 scores 20.5.\<close>

theorem score_is_weighted_sum_witness:
  "score (scoreCandidate ex_delta_full ex_train5) = 10 + 4 + 4 + 1 + 1 + 1 / 2
   \<and> locomotiveMatch ex_delta_full ex_train5
   \<and> stationInRoute (nextStationId ex_delta_full) (route ex_train5)
   \<and> stationInRoute (prevStationId ex_delta_full) (route ex_train5)
   \<and> routePosition (prevStationId ex_delta_full) (route ex_train5)
       < routePosition (nextStationId ex_delta_full) (route ex_train5)
   \<and> directionMatch ex_delta_full ex_train5
   \<and> stopNameMatch ex_delta_full ex_train5"
proof -
  have a: "locomotiveMatch ex_delta_full ex_train5" by code_simp
  have b: "stationInRoute (nextStationId ex_delta_full) (route ex_train5)" by code_simp
  have c: "stationInRoute (prevStationId ex_delta_full) (route ex_train5)" by code_simp
  have d: "routePosition (prevStationId ex_delta_full) (route ex_train5)
             < routePosition (nextStationId ex_delta_full) (route ex_train5)" by code_simp
  have e: "directionMatch ex_delta_full ex_train5" by code_simp
  have f: "stopNameMatch ex_delta_full ex_train5" by code_simp
  show ?thesis
    using score_is_weighted_sum [of ex_delta_full ex_train5 "[]"] a b c d e f by simp
qed

text \<open>
  Claim C3 as stated fails: the next-station id of the delta is 0 and the route holds a
  station with id 0, so the specification's sum is 4, but the code scores 0 and discards
  the train.
\<close>

theorem score_counterexample:
  "nextStationId ex_delta_zero = Some (Fin 0)
   \<and> list_ex (\<lambda>stop. StationId stop = Fin 0) (route ex_train0)
   \<and> spec_score ex_delta_zero ex_train0 = 4
   \<and> score (scoreCandidate ex_delta_zero ex_train0) = 0
   \<and> scoredCandidates [ex_train0] ex_delta_zero = []"
  by code_simp

section \<open>Properties of the normalizer\<close>

lemma StringToNumber_plain:
  assumes "trimWS s = t" and "t \<noteq> []" and "nonDecimal t = None"
    and "hd t \<noteq> CHR ''-''" and "hd t \<noteq> CHR ''+''" and "t \<noteq> ''Infinity''"
    and "unsignedDecimal t = Some q" and "toDoubleRange q = Fin q"
  shows "StringToNumber s = Fin q"
  using assms by (simp add: StringToNumber_def Let_def)

lemma ex_numbers:
  "StringToNumber ''30.1'' = Fin (301 / 10)"
  "StringToNumber ''70.2'' = Fin (351 / 5)"
  "StringToNumber ''17'' = Fin 17"
  "StringToNumber ''45'' = Fin 45"
  "StringToNumber ''123'' = Fin 123"
  by (rule StringToNumber_plain[where t = "''30.1''"], code_simp, code_simp, code_simp,
      code_simp, code_simp, code_simp, code_simp, simp add: toDoubleRange_def)
     (rule StringToNumber_plain[where t = "''70.2''"], code_simp, code_simp, code_simp,
      code_simp, code_simp, code_simp, code_simp, simp add: toDoubleRange_def,
      rule StringToNumber_plain[where t = "''17''"], code_simp, code_simp, code_simp,
      code_simp, code_simp, code_simp, code_simp, simp add: toDoubleRange_def,
      rule StringToNumber_plain[where t = "''45''"], code_simp, code_simp, code_simp,
      code_simp, code_simp, code_simp, code_simp, simp add: toDoubleRange_def,
      rule StringToNumber_plain[where t = "''123''"], code_simp, code_simp, code_simp,
      code_simp, code_simp, code_simp, code_simp, simp add: toDoubleRange_def)

lemma ex_not_numbers:
  "StringToNumber ''n/a'' = NaN"
  "StringToNumber ''abc'' = NaN"
  by code_simp+

lemmas parse_defs = parseSocketPayload_def Let_def NumberOpt_def numberOrNull_def
  keepFinite_def extractTrainNumberFromKey_def finiteOrNull_def endsWith_def
  parseBoolean_def parseDirection_def

lemma speed_finite_or_null:
  "parseSocketPayload toNumber now tKey vKey payload = Some delta
     \<Longrightarrow> speed delta = None \<or> isFiniteOpt (speed delta)"
  by (auto simp: parseSocketPayload_def Let_def keepFinite_def split: if_splits)

text \<open>
  Claim C8. The normalizer returns null exactly when the \<open>lat\<close> or the \<open>lon\<close> field
  does not convert to a finite number, whatever the conversion of strings is; hence every
  delta it produces has a finite position.
\<close>

theorem invalid_position_dropped:
  "(parseSocketPayload toNumber now tKey vKey payload = None)
     = (\<not> isFinite (NumberOpt toNumber (p_lat payload))
        \<or> \<not> isFinite (NumberOpt toNumber (p_lon payload)))
   \<and> (\<forall>delta. parseSocketPayload toNumber now tKey vKey payload = Some delta
         \<longrightarrow> isFinite (lat delta) \<and> isFinite (lon delta))"
proof (cases "isFinite (NumberOpt toNumber (p_lat payload))
               \<and> isFinite (NumberOpt toNumber (p_lon payload))")
  case True
  then obtain delta where
    d: "parseSocketPayload toNumber now tKey vKey payload = Some delta"
    and "lat delta = NumberOpt toNumber (p_lat payload)"
    and "lon delta = NumberOpt toNumber (p_lon payload)"
    by (simp add: parseSocketPayload_def Let_def)
  with True show ?thesis by simp
next
  case False
  then have "parseSocketPayload toNumber now tKey vKey payload = None"
    by (auto simp: parseSocketPayload_def Let_def)
  with False show ?thesis by simp
qed

text \<open>
  The scenario payload is accepted with position (30.1, 70.2); with \<open>lat = "n/a"\<close> it is
  dropped.
\<close>

theorem invalid_position_dropped_witness:
  "parseSocketPayload StringToNumber (Fin ex_now) ''123'' ''9900'' ex_payload_nolat = None
   \<and> \<not> isFinite (NumberOpt StringToNumber (p_lat ex_payload_nolat))
   \<and> parseSocketPayload StringToNumber (Fin ex_now) ''123'' ''9900'' ex_payload
       = Some (ex_delta\<lparr>lastUpdated := Fin ex_now, nextStationId := Some (Fin 17)\<rparr>)
   \<and> isFinite (lat (ex_delta\<lparr>lastUpdated := Fin ex_now, nextStationId := Some (Fin 17)\<rparr>))
   \<and> isFinite (lon (ex_delta\<lparr>lastUpdated := Fin ex_now, nextStationId := Some (Fin 17)\<rparr>))"
proof -
  have a: "\<not> isFinite (NumberOpt StringToNumber (p_lat ex_payload_nolat))"
    by (simp add: NumberOpt_def ex_payload_nolat_def ex_not_numbers)
  have b: "parseSocketPayload StringToNumber (Fin ex_now) ''123'' ''9900'' ex_payload
             = Some (ex_delta\<lparr>lastUpdated := Fin ex_now, nextStationId := Some (Fin 17)\<rparr>)"
    by (simp add: parse_defs ex_payload_def ex_delta_def ex_numbers)
  show ?thesis
    using invalid_position_dropped [of StringToNumber "Fin ex_now" "''123''" "''9900''" ex_payload_nolat]
      invalid_position_dropped [of StringToNumber "Fin ex_now" "''123''" "''9900''" ex_payload]
      a b by simp
qed

text \<open>
  Claim C9 at the payload with \<open>late_by = "abc"\<close>: the payload is accepted and the delta
  stores \<open>NaN\<close> as its lateness, where the claim promises null.
\<close>

theorem lateBy_unparseable_is_NaN:
  "parseSocketPayload StringToNumber (Fin ex_now) ''123'' ''9900'' ex_payload_late
     = Some (ex_delta\<lparr>lastUpdated := Fin ex_now, nextStationId := Some (Fin 17),
                      lateBy := Some NaN\<rparr>)"
  by (simp add: parse_defs ex_payload_late_def ex_payload_def ex_delta_def ex_numbers
        ex_not_numbers)

text \<open>
  At that payload both position fields are finite, so the payload is not dropped, and the
  stored lateness is not a finite number.
\<close>

theorem lateBy_unparseable_is_NaN_witness:
  "isFinite (NumberOpt StringToNumber (p_lat ex_payload_late))
   \<and> isFinite (NumberOpt StringToNumber (p_lon ex_payload_late))
   \<and> map_option lateBy
         (parseSocketPayload StringToNumber (Fin ex_now) ''123'' ''9900'' ex_payload_late)
       = Some (Some NaN)
   \<and> \<not> isFiniteOpt (Some NaN)"
proof -
  have "isFinite (NumberOpt StringToNumber (p_lat ex_payload_late))"
    "isFinite (NumberOpt StringToNumber (p_lon ex_payload_late))"
    by (simp_all add: NumberOpt_def ex_payload_late_def ex_payload_def ex_numbers)
  then show ?thesis using lateBy_unparseable_is_NaN by simp
qed

section \<open>Properties of the batch application\<close>

text \<open>
  The cache starts empty and every entry written by \<open>processDeltas\<close> is a truthy train
  id, so the cache of the store holds truthy ids at all times.
\<close>

lemma cacheTruthy_upd: "cacheTruthy cache \<Longrightarrow> num_truthy v \<Longrightarrow> cacheTruthy (cache(k \<mapsto> v))"
  by (auto simp: cacheTruthy_def ran_def)

lemma cacheTruthy_empty: "cacheTruthy Map.empty"
  by (simp add: cacheTruthy_def)

lemma cacheTruthy_attributeDelta:
  "cacheTruthy (st_trainKeyToId st) \<Longrightarrow> num_truthy tid
     \<Longrightarrow> cacheTruthy (st_trainKeyToId (attributeDelta toStr st delta tid))"
  by (cases "trainNumber delta") (simp_all add: attributeDelta_def Let_def cacheTruthy_upd)

lemma cacheTruthy_processDelta:
  "cacheTruthy (st_trainKeyToId st)
     \<Longrightarrow> cacheTruthy (st_trainKeyToId (processDelta resolver toStr st delta))"
proof -
  assume ok: "cacheTruthy (st_trainKeyToId st)"
  define target where
    "target = (if opt_num_truthy (mappedTrainId toStr (st_trainKeyToId st) delta)
               then mappedTrainId toStr (st_trainKeyToId st) delta
               else resolver (st_trains st) delta)"
  show ?thesis
  proof (cases "opt_num_truthy target")
    case True
    then obtain tid where "target = Some tid" "num_truthy tid" by (cases target) auto
    then show ?thesis
      using ok cacheTruthy_attributeDelta[of "st\<lparr>st_liveDeltas := (st_liveDeltas st)(trainKey delta \<mapsto> delta)\<rparr>" tid toStr delta]
      by (simp add: processDelta_def Let_def target_def[symmetric])
  next
    case False
    then show ?thesis using ok by (simp add: processDelta_def Let_def target_def[symmetric])
  qed
qed

lemma cacheTruthy_processDeltas:
  "cacheTruthy (st_trainKeyToId st) \<Longrightarrow> cacheTruthy (st_trainKeyToId (processDeltas toStr st deltas))"
proof -
  have "cacheTruthy (st_trainKeyToId st)
          \<Longrightarrow> cacheTruthy (st_trainKeyToId (foldl (processDelta findMatchingTrainId toStr) st deltas))"
    by (induction deltas arbitrary: st) (auto intro: cacheTruthy_processDelta)
  then show "cacheTruthy (st_trainKeyToId st)
               \<Longrightarrow> cacheTruthy (st_trainKeyToId (processDeltas toStr st deltas))"
    by (simp add: processDeltas_def)
qed





end
